theory Spec2Isabelle
  imports Main "HOL-Library.Multiset"
begin

section \<open>The calendar of a JavaScript Date\<close>

text \<open>
  A \<open>Date\<close> of the plugin is modelled by its time value: the integer number of
  milliseconds since 1970-01-01T00:00. The plugin reads and builds dates through the local-time
  accessors only (\<open>getFullYear\<close>, \<open>getMonth\<close>, \<open>getDate\<close>, \<open>setHours\<close>,
  \<open>setFullYear\<close>, \<open>new Date(y, m, d)\<close>); the model takes the local time zone to be UTC
  without daylight saving, so local midnights are the multiples of \<open>msPerDay\<close>. The
  definitions below are the day-number and year-number functions of the ECMAScript
  specification (section "Date Objects"). Invalid dates (a \<open>NaN\<close> time value) and the
  clipping of time values beyond 8.64e15 ms are not modelled.
\<close>

type_synonym date = int

definition msPerDay :: int where
  "msPerDay = 86400000"

definition Day :: "int \<Rightarrow> int" where
  "Day t = t div msPerDay"

definition TimeWithinDay :: "int \<Rightarrow> int" where
  "TimeWithinDay t = t mod msPerDay"

definition DaysInYear :: "int \<Rightarrow> int" where
  "DaysInYear y =
     (if y mod 4 \<noteq> 0 then 365
      else if y mod 100 \<noteq> 0 then 366
      else if y mod 400 \<noteq> 0 then 365
      else 366)"

definition DayFromYear :: "int \<Rightarrow> int" where
  "DayFromYear y =
     365 * (y - 1970) + (y - 1969) div 4 - (y - 1901) div 100 + (y - 1601) div 400"

subsection \<open>Consecutive years are a year's length apart\<close>

lemma div_succ:
  fixes a n :: int
  assumes "0 < n"
  shows "(a + 1) div n = a div n + (if (a + 1) mod n = 0 then 1 else 0)"
proof -
  have r: "0 \<le> a mod n" "a mod n < n" using assms by simp_all
  have e: "a + 1 = n * (a div n) + (a mod n + 1)" by simp
  show ?thesis
  proof (cases "a mod n + 1 = n")
    case True
    have "n * (a div n) + (a mod n + 1) = n * (a div n + 1) + 0"
      unfolding True by (simp add: algebra_simps)
    with e have "a + 1 = n * (a div n + 1) + 0" by simp
    then have "(a + 1) div n = a div n + 1" "(a + 1) mod n = 0"
      using assms int_div_pos_eq [of "a + 1" n "a div n + 1" 0]
        int_mod_pos_eq [of "a + 1" n "a div n + 1" 0] by simp_all
    then show ?thesis by simp
  next
    case False
    then have "(a + 1) div n = a div n" "(a + 1) mod n = a mod n + 1"
      using r e int_div_pos_eq [of "a + 1" n "a div n" "a mod n + 1"]
        int_mod_pos_eq [of "a + 1" n "a div n" "a mod n + 1"] by simp_all
    then show ?thesis using r by simp
  qed
qed

lemma mod4_shift: "(y - 1968) mod 4 = y mod 4" for y :: int
proof -
  have "y - 1968 = y + 4 * (- 492)" by simp
  then show ?thesis by (metis mod_mult_self2)
qed

lemma mod100_shift: "(y - 1900) mod 100 = y mod 100" for y :: int
proof -
  have "y - 1900 = y + 100 * (- 19)" by simp
  then show ?thesis by (metis mod_mult_self2)
qed

lemma mod400_shift: "(y - 1600) mod 400 = y mod 400" for y :: int
proof -
  have "y - 1600 = y + 400 * (- 4)" by simp
  then show ?thesis by (metis mod_mult_self2)
qed

lemma mod_100_4: "y mod 100 = 0 \<Longrightarrow> y mod 4 = 0" for y :: int
proof -
  assume "y mod 100 = 0"
  then have "100 dvd y" by (simp add: dvd_eq_mod_eq_0)
  moreover have "(4::int) dvd 100" by simp
  ultimately have "4 dvd y" by (rule dvd_trans [rotated])
  then show ?thesis by (simp add: dvd_eq_mod_eq_0)
qed

lemma mod_400_100: "y mod 400 = 0 \<Longrightarrow> y mod 100 = 0" for y :: int
proof -
  assume "y mod 400 = 0"
  then have "400 dvd y" by (simp add: dvd_eq_mod_eq_0)
  moreover have "(100::int) dvd 400" by simp
  ultimately have "100 dvd y" by (rule dvd_trans [rotated])
  then show ?thesis by (simp add: dvd_eq_mod_eq_0)
qed

lemma DayFromYear_next: "DayFromYear (y + 1) = DayFromYear y + DaysInYear y"
proof -
  have a: "(y + 1 - 1969) div 4 = (y - 1969) div 4 + (if y mod 4 = 0 then 1 else 0)"
    using div_succ [of 4 "y - 1969"] mod4_shift [of y] by (simp add: algebra_simps)
  have b: "(y + 1 - 1901) div 100 = (y - 1901) div 100 + (if y mod 100 = 0 then 1 else 0)"
    using div_succ [of 100 "y - 1901"] mod100_shift [of y] by (simp add: algebra_simps)
  have c: "(y + 1 - 1601) div 400 = (y - 1601) div 400 + (if y mod 400 = 0 then 1 else 0)"
    using div_succ [of 400 "y - 1601"] mod400_shift [of y] by (simp add: algebra_simps)
  show ?thesis
    unfolding DayFromYear_def DaysInYear_def a b c
    using mod_100_4 [of y] mod_400_100 [of y] by simp
qed

lemma DaysInYear_cases: "DaysInYear y = 365 \<or> DaysInYear y = 366"
  by (simp add: DaysInYear_def)

lemma DayFromYear_less_next: "DayFromYear y < DayFromYear (y + 1)"
  using DaysInYear_cases [of y] by (auto simp: DayFromYear_next)

lemma DayFromYear_prev_less: "DayFromYear (y - 1) < DayFromYear y"
  using DayFromYear_less_next [of "y - 1"] by simp

subsection \<open>The year of a day\<close>

text \<open>
  ECMAScript defines \<open>YearFromTime(t)\<close> as the largest \<open>y\<close> with
  \<open>TimeFromYear(y) \<le> t\<close>. The model finds it by walking from the estimate
  \<open>1970 + Day(t) div 365\<close>: down while the year starts after the day, then up while the
  next year starts on or before it.
\<close>

function yearDown :: "int \<Rightarrow> int \<Rightarrow> int" where
  "yearDown y d = (if d < DayFromYear y then yearDown (y - 1) d else y)"
  by pat_completeness auto
termination
proof (relation "measure (\<lambda>(y, d). nat (DayFromYear y - d))")
  show "wf (measure (\<lambda>(y, d). nat (DayFromYear y - d)))" by simp
next
  fix y d :: int
  assume "d < DayFromYear y"
  then show "((y - 1, d), (y, d)) \<in> measure (\<lambda>(y, d). nat (DayFromYear y - d))"
    using DayFromYear_prev_less [of y] by simp
qed

function yearUp :: "int \<Rightarrow> int \<Rightarrow> int" where
  "yearUp y d = (if DayFromYear (y + 1) \<le> d then yearUp (y + 1) d else y)"
  by pat_completeness auto
termination
proof (relation "measure (\<lambda>(y, d). nat (d + 1 - DayFromYear (y + 1)))")
  show "wf (measure (\<lambda>(y, d). nat (d + 1 - DayFromYear (y + 1))))" by simp
next
  fix y d :: int
  assume "DayFromYear (y + 1) \<le> d"
  then show "((y + 1, d), (y, d)) \<in> measure (\<lambda>(y, d). nat (d + 1 - DayFromYear (y + 1)))"
    using DayFromYear_less_next [of "y + 1"] by simp
qed

declare yearDown.simps [simp del] yearUp.simps [simp del]

definition YearFromDay :: "int \<Rightarrow> int" where
  "YearFromDay d = yearUp (yearDown (1970 + d div 365) d) d"

definition YearFromTime :: "int \<Rightarrow> int" where
  "YearFromTime t = YearFromDay (Day t)"

definition InLeapYear :: "int \<Rightarrow> int" where
  "InLeapYear t = (if DaysInYear (YearFromTime t) = 366 then 1 else 0)"

definition DayWithinYear :: "int \<Rightarrow> int" where
  "DayWithinYear t = Day t - DayFromYear (YearFromTime t)"

definition MonthFromTime :: "int \<Rightarrow> int" where
  "MonthFromTime t =
     (let d = DayWithinYear t; l = InLeapYear t
      in if d < 31 then 0
         else if d < 59 + l then 1
         else if d < 90 + l then 2
         else if d < 120 + l then 3
         else if d < 151 + l then 4
         else if d < 181 + l then 5
         else if d < 212 + l then 6
         else if d < 243 + l then 7
         else if d < 273 + l then 8
         else if d < 304 + l then 9
         else if d < 334 + l then 10
         else 11)"

definition DateFromTime :: "int \<Rightarrow> int" where
  "DateFromTime t =
     (let d = DayWithinYear t; l = InLeapYear t; m = MonthFromTime t
      in if m = 0 then d + 1
         else if m = 1 then d - 30
         else if m = 2 then d - 58 - l
         else if m = 3 then d - 89 - l
         else if m = 4 then d - 119 - l
         else if m = 5 then d - 150 - l
         else if m = 6 then d - 180 - l
         else if m = 7 then d - 211 - l
         else if m = 8 then d - 242 - l
         else if m = 9 then d - 272 - l
         else if m = 10 then d - 303 - l
         else d - 333 - l)"

text \<open>
  \<open>MakeDay(year, month, date)\<close>: months beyond 0..11 carry into the year, and the date
  is added as a day count, so that a date beyond the month's length carries into the following
  months. \<open>monthStart\<close> is the day within the year on which a month begins.
\<close>

definition monthStart :: "int \<Rightarrow> int \<Rightarrow> int" where
  "monthStart l m =
     (if m = 0 then 0
      else if m = 1 then 31
      else if m = 2 then 59 + l
      else if m = 3 then 90 + l
      else if m = 4 then 120 + l
      else if m = 5 then 151 + l
      else if m = 6 then 181 + l
      else if m = 7 then 212 + l
      else if m = 8 then 243 + l
      else if m = 9 then 273 + l
      else if m = 10 then 304 + l
      else 334 + l)"

definition MakeDay :: "int \<Rightarrow> int \<Rightarrow> int \<Rightarrow> int" where
  "MakeDay year month dt =
     (let ym = year + month div 12; mn = month mod 12;
          l = (if DaysInYear ym = 366 then 1 else 0)
      in DayFromYear ym + monthStart l mn + dt - 1)"

definition MakeDate :: "int \<Rightarrow> int \<Rightarrow> int" where
  "MakeDate day time = day * msPerDay + time"

text \<open>
  The Date methods the plugin calls. \<open>newDate y m d\<close> is \<open>new Date(y, m, d)\<close>: a year from
  0 to 99 means 1900 + year, and the time of day is 00:00.
\<close>

definition newDate :: "int \<Rightarrow> int \<Rightarrow> int \<Rightarrow> date" where
  "newDate y m d =
     (let yr = (if 0 \<le> y \<and> y \<le> 99 then 1900 + y else y)
      in MakeDate (MakeDay yr m d) 0)"

definition getFullYear :: "date \<Rightarrow> int" where
  "getFullYear t = YearFromTime t"

definition getMonth :: "date \<Rightarrow> int" where
  "getMonth t = MonthFromTime t"

definition getDate :: "date \<Rightarrow> int" where
  "getDate t = DateFromTime t"

definition setFullYear :: "date \<Rightarrow> int \<Rightarrow> date" where
  "setFullYear t y = MakeDate (MakeDay y (MonthFromTime t) (DateFromTime t)) (TimeWithinDay t)"

definition setHours0 :: "date \<Rightarrow> date" where
  \<comment> \<open>\<open>setHours(0, 0, 0, 0)\<close>\<close>
  "setHours0 t = MakeDate (Day t) 0"


section \<open>Date utilities of the plugin\<close>

text \<open>
  Every function of the source that calls \<open>new Date()\<close> takes the current time as the
  argument \<open>now\<close>. \<open>Math.ceil(a / b)\<close> and \<open>Math.floor(a / b)\<close> are taken on integers.
\<close>

definition ceilDiv :: "int \<Rightarrow> int \<Rightarrow> int" where
  "ceilDiv a b = - ((- a) div b)"

definition floorDiv :: "int \<Rightarrow> int \<Rightarrow> int" where
  "floorDiv a b = a div b"

definition getDaysUntilBirthday :: "date \<Rightarrow> date \<Rightarrow> int" where
  "getDaysUntilBirthday now birthday =
     (let today = setHours0 now;
          thisYearBirthday = newDate (getFullYear today) (getMonth birthday) (getDate birthday);
          thisYearBirthday =
            (if thisYearBirthday < today
             then setFullYear thisYearBirthday (getFullYear today + 1)
             else thisYearBirthday);
          diffTime = thisYearBirthday - today
      in ceilDiv diffTime msPerDay)"

definition getDaysSince :: "date \<Rightarrow> date \<Rightarrow> int" where
  "getDaysSince now d =
     (let today = setHours0 now;
          targetDate = setHours0 d;
          diffTime = today - targetDate
      in floorDiv diffTime msPerDay)"

definition calculateAge :: "date \<Rightarrow> date \<Rightarrow> int" where
  "calculateAge now birthday =
     (let today = now;
          age = getFullYear today - getFullYear birthday;
          monthDiff = getMonth today - getMonth birthday
      in if monthDiff < 0 \<or> (monthDiff = 0 \<and> getDate today < getDate birthday)
         then age - 1 else age)"

definition getNextBirthdayDate :: "date \<Rightarrow> date \<Rightarrow> date" where
  "getNextBirthdayDate now birthday =
     (let today = setHours0 now;
          nextBirthday = newDate (getFullYear today) (getMonth birthday) (getDate birthday)
      in if nextBirthday \<le> today
         then setFullYear nextBirthday (getFullYear today + 1)
         else nextBirthday)"

section \<open>Reminder logic\<close>

text \<open>
  A string of the source is the list of its UTF-16 code units; \<open>js\<close> turns an ASCII literal
  into one. Numbers that the source keeps in records are integers here (no fractions, no
  \<open>NaN\<close>); \<open>null\<close> is \<open>None\<close>.
\<close>

type_synonym jsstring = "nat list"

definition js :: "string \<Rightarrow> jsstring" where
  "js s = map of_char s"

record Person =
  uuid :: jsstring
  name :: jsstring
  birthday :: "date option"
  lastContact :: "date option"
  contactFrequency :: "int option"
  relationship :: "jsstring option"
  email :: "jsstring option"

record BirthdayReminder =
  person :: Person
  daysUntil :: int
  age :: int

record ContactReminder =
  person' :: Person
  daysSinceContact :: int
  daysOverdue :: int

text \<open>
  \<open>Array.prototype.sort(compare)\<close> is stable; with a comparator that is a difference of
  integer keys every stable sort returns the same list, here the one built by insertion:
  an element goes in front of the first one that it does not compare greater than.
\<close>

fun insertBy :: "('a \<Rightarrow> 'a \<Rightarrow> int) \<Rightarrow> 'a \<Rightarrow> 'a list \<Rightarrow> 'a list" where
  "insertBy cmp x [] = [x]"
| "insertBy cmp x (y # ys) = (if cmp x y \<le> 0 then x # y # ys else y # insertBy cmp x ys)"

fun sortBy :: "('a \<Rightarrow> 'a \<Rightarrow> int) \<Rightarrow> 'a list \<Rightarrow> 'a list" where
  "sortBy cmp [] = []"
| "sortBy cmp (x # xs) = insertBy cmp x (sortBy cmp xs)"

text \<open>The loop of \<open>getUpcomingBirthdays\<close>, which pushes the reminders in input order.\<close>

fun upcomingReminders :: "date \<Rightarrow> Person list \<Rightarrow> int \<Rightarrow> BirthdayReminder list" where
  "upcomingReminders now [] withinDays = []"
| "upcomingReminders now (p # people) withinDays =
     (case birthday p of
        None \<Rightarrow> upcomingReminders now people withinDays
      | Some b \<Rightarrow>
          (let daysUntil = getDaysUntilBirthday now b
           in if daysUntil \<le> withinDays
              then \<lparr>person = p, daysUntil = daysUntil,
                    age = (if daysUntil = 0 then calculateAge now b else calculateAge now b + 1)\<rparr>
                   # upcomingReminders now people withinDays
              else upcomingReminders now people withinDays))"

definition getUpcomingBirthdays :: "date \<Rightarrow> Person list \<Rightarrow> int \<Rightarrow> BirthdayReminder list" where
  "getUpcomingBirthdays now people withinDays =
     sortBy (\<lambda>a b. daysUntil a - daysUntil b) (upcomingReminders now people withinDays)"

text \<open>
  In \<open>getPeopleToContact\<close> the local \<open>daysSince\<close> is a number or \<open>Infinity\<close>, and so is
  \<open>daysOverdue = daysSince - contactFrequency\<close>. A frequency that is \<open>null\<close> or \<open>0\<close> is
  falsy and skips the person. The pushed \<open>daysOverdue\<close> is read only when \<open>lastContact\<close> is
  set, where it is the finite \<open>getDaysSince - contactFrequency\<close>.
\<close>

datatype number = Num int | Infinity

fun minus_number :: "number \<Rightarrow> int \<Rightarrow> number" where
  "minus_number (Num a) b = Num (a - b)"
| "minus_number Infinity b = Infinity"

fun ge0 :: "number \<Rightarrow> bool" where
  "ge0 (Num a) = (0 \<le> a)"
| "ge0 Infinity = True"

definition daysSinceOf :: "date \<Rightarrow> Person \<Rightarrow> number" where
  "daysSinceOf now p =
     (case lastContact p of Some d \<Rightarrow> Num (getDaysSince now d) | None \<Rightarrow> Infinity)"

fun contactReminders :: "date \<Rightarrow> Person list \<Rightarrow> ContactReminder list" where
  "contactReminders now [] = []"
| "contactReminders now (p # people) =
     (case contactFrequency p of
        None \<Rightarrow> contactReminders now people
      | Some f \<Rightarrow>
          if f = 0 then contactReminders now people
          else
            (let daysSince = daysSinceOf now p;
                 daysOverdue = minus_number daysSince f
             in if ge0 daysOverdue \<or> lastContact p = None
                then \<lparr>person' = p,
                      daysSinceContact = (case daysSince of Infinity \<Rightarrow> - 1 | Num n \<Rightarrow> n),
                      daysOverdue =
                        (case lastContact p of Some d \<Rightarrow> getDaysSince now d - f | None \<Rightarrow> f)\<rparr>
                     # contactReminders now people
                else contactReminders now people))"

definition getPeopleToContact :: "date \<Rightarrow> Person list \<Rightarrow> ContactReminder list" where
  "getPeopleToContact now people =
     sortBy (\<lambda>a b. daysOverdue b - daysOverdue a) (contactReminders now people)"


text \<open>
  The test that decides whether the loop of \<open>getPeopleToContact\<close> pushes a person:
  a truthy frequency, and \<open>daysOverdue >= 0 || !person.lastContact\<close>.
\<close>

definition isDue :: "date \<Rightarrow> Person \<Rightarrow> bool" where
  "isDue now p =
     (case contactFrequency p of
        None \<Rightarrow> False
      | Some f \<Rightarrow> f \<noteq> 0 \<and>
          (case lastContact p of None \<Rightarrow> True | Some d \<Rightarrow> 0 \<le> getDaysSince now d - f))"

section \<open>Scheduling the yearly task\<close>

text \<open>
  \<open>getDaysUntilBirthday\<close> and \<open>getNextBirthdayDate\<close> both start from the birthday's month and
  day in the current year (the first value of the locals \<open>thisYearBirthday\<close> and
  \<open>nextBirthday\<close>).
\<close>

definition thisYearOccurrence :: "date \<Rightarrow> date \<Rightarrow> date" where
  "thisYearOccurrence now b =
     newDate (getFullYear (setHours0 now)) (getMonth b) (getDate b)"

text \<open>
  \<open>handleBirthdayTaskCompleted\<close> receives the person's name only. Once it has resolved the
  person's birthday to \<open>birthdayDate\<close>, it computes the date of the next task as the local
  \<open>nextYearBirthday\<close>, from the current year.
\<close>

definition nextYearBirthday :: "date \<Rightarrow> date \<Rightarrow> date" where
  "nextYearBirthday now birthdayDate =
     (let today = setHours0 now
      in newDate (getFullYear today + 1) (getMonth birthdayDate) (getDate birthdayDate))"

text \<open>The length of a month, for a leap-year flag \<open>l\<close> of 0 or 1.\<close>

definition daysInMonth :: "int \<Rightarrow> int \<Rightarrow> int" where
  "daysInMonth l m =
     (if m = 1 then 28 + l
      else if m = 3 \<or> m = 5 \<or> m = 8 \<or> m = 10 then 30
      else 31)"

section \<open>Parsing a birthday\<close>

text \<open>
  The regular expressions of \<open>parseBirthdayInput\<close> are anchored sequences of pieces: a run of
  digits of bounded length (a capture), one character of a class, a run of letters (a
  capture), a run of white space, an optional comma. Neighbouring pieces accept disjoint
  characters, so the greedy match is the only one and \<open>matchPieces\<close> needs no backtracking: it
  takes each run as long as it goes and returns the captures. \<open>isSpace\<close> is the class \<open>\s\<close>,
  which is also what \<open>trim\<close> strips. \<open>parseInt\<close> is applied to captured digits only, and
  \<open>toLowerCase\<close> to captured ASCII letters only.
\<close>

definition isDigit :: "nat \<Rightarrow> bool" where
  "isDigit c = (48 \<le> c \<and> c \<le> 57)"

definition isLetter :: "nat \<Rightarrow> bool" where
  "isLetter c = ((65 \<le> c \<and> c \<le> 90) \<or> (97 \<le> c \<and> c \<le> 122))"

definition isSpace :: "nat \<Rightarrow> bool" where
  "isSpace c =
     (c \<in> set [9, 10, 11, 12, 13, 32, 160, 5760, 8232, 8233, 8239, 8287, 12288, 65279]
      \<or> (8192 \<le> c \<and> c \<le> 8202))"

definition trim :: "jsstring \<Rightarrow> jsstring" where
  "trim s = rev (dropWhile isSpace (rev (dropWhile isSpace s)))"

definition parseInt :: "jsstring \<Rightarrow> int" where
  "parseInt s = foldl (\<lambda>a c. 10 * a + (int c - 48)) 0 s"

definition toLowerCase :: "jsstring \<Rightarrow> jsstring" where
  "toLowerCase s = map (\<lambda>c. if 65 \<le> c \<and> c \<le> 90 then c + 32 else c) s"

datatype piece = Digits nat nat | OneOf jsstring | Letters | Spaces | OptComma

fun matchPieces :: "piece list \<Rightarrow> jsstring \<Rightarrow> jsstring list option" where
  "matchPieces [] s = (if s = [] then Some [] else None)"
| "matchPieces (Digits lo hi # ps) s =
     (let run = takeWhile isDigit s
      in if lo \<le> length run \<and> length run \<le> hi
         then map_option (Cons run) (matchPieces ps (dropWhile isDigit s))
         else None)"
| "matchPieces (OneOf cs # ps) s =
     (case s of [] \<Rightarrow> None
      | c # rest \<Rightarrow> if c \<in> set cs then matchPieces ps rest else None)"
| "matchPieces (Letters # ps) s =
     (let run = takeWhile isLetter s
      in if run \<noteq> []
         then map_option (Cons run) (matchPieces ps (dropWhile isLetter s))
         else None)"
| "matchPieces (Spaces # ps) s =
     (if takeWhile isSpace s \<noteq> [] then matchPieces ps (dropWhile isSpace s) else None)"
| "matchPieces (OptComma # ps) s =
     (case s of [] \<Rightarrow> matchPieces ps s
      | c # rest \<Rightarrow> if c = 44 then matchPieces ps rest else matchPieces ps s)"

definition isoPattern :: "piece list" where
  "isoPattern = [Digits 4 4, OneOf (js ''-''), Digits 1 2, OneOf (js ''-''), Digits 1 2]"

definition euroPattern :: "piece list" where
  "euroPattern = [Digits 1 2, OneOf (js ''/-.''), Digits 1 2, OneOf (js ''/-.''), Digits 4 4]"

definition usPattern :: "piece list" where
  "usPattern = [Digits 1 2, OneOf (js ''/-''), Digits 1 2, OneOf (js ''/-''), Digits 4 4]"

definition dayMonthYearPattern :: "piece list" where
  "dayMonthYearPattern = [Digits 1 2, Spaces, Letters, Spaces, Digits 4 4]"

definition monthDayYearPattern :: "piece list" where
  "monthDayYearPattern = [Letters, Spaces, Digits 1 2, OptComma, Spaces, Digits 4 4]"

definition yearMonthDayPattern :: "piece list" where
  "yearMonthDayPattern = [Digits 4 4, Spaces, Letters, Spaces, Digits 1 2]"

definition months :: "(jsstring \<times> int) list" where
  "months =
     [(js ''jan'', 0), (js ''january'', 0),
      (js ''feb'', 1), (js ''february'', 1),
      (js ''mar'', 2), (js ''march'', 2),
      (js ''apr'', 3), (js ''april'', 3),
      (js ''may'', 4),
      (js ''jun'', 5), (js ''june'', 5),
      (js ''jul'', 6), (js ''july'', 6),
      (js ''aug'', 7), (js ''august'', 7),
      (js ''sep'', 8), (js ''sept'', 8), (js ''september'', 8),
      (js ''oct'', 9), (js ''october'', 9),
      (js ''nov'', 10), (js ''november'', 10),
      (js ''dec'', 11), (js ''december'', 11)]"

definition isoMatch :: "jsstring \<Rightarrow> date option" where
  "isoMatch trimmed =
     (case matchPieces isoPattern trimmed of
        Some [year, month, day] \<Rightarrow>
          Some (newDate (parseInt year) (parseInt month - 1) (parseInt day))
      | _ \<Rightarrow> None)"

definition euroMatch :: "jsstring \<Rightarrow> date option" where
  "euroMatch trimmed =
     (case matchPieces euroPattern trimmed of
        Some [day, month, year] \<Rightarrow>
          Some (newDate (parseInt year) (parseInt month - 1) (parseInt day))
      | _ \<Rightarrow> None)"

definition usMatch :: "jsstring \<Rightarrow> date option" where
  "usMatch trimmed =
     (case matchPieces usPattern trimmed of
        Some [first, second, year] \<Rightarrow>
          (let firstNum = parseInt first; secondNum = parseInt second
           in if firstNum > 12 then Some (newDate (parseInt year) (secondNum - 1) firstNum)
              else if secondNum > 12 then Some (newDate (parseInt year) (firstNum - 1) secondNum)
              else Some (newDate (parseInt year) (secondNum - 1) firstNum))
      | _ \<Rightarrow> None)"

definition dayMonthYearMatch :: "jsstring \<Rightarrow> date option" where
  "dayMonthYearMatch trimmed =
     (case matchPieces dayMonthYearPattern trimmed of
        Some [day, monthStr, year] \<Rightarrow>
          (case map_of months (toLowerCase monthStr) of
             Some month \<Rightarrow> Some (newDate (parseInt year) month (parseInt day))
           | None \<Rightarrow> None)
      | _ \<Rightarrow> None)"

definition monthDayYearMatch :: "jsstring \<Rightarrow> date option" where
  "monthDayYearMatch trimmed =
     (case matchPieces monthDayYearPattern trimmed of
        Some [monthStr, day, year] \<Rightarrow>
          (case map_of months (toLowerCase monthStr) of
             Some month \<Rightarrow> Some (newDate (parseInt year) month (parseInt day))
           | None \<Rightarrow> None)
      | _ \<Rightarrow> None)"

definition yearMonthDayMatch :: "jsstring \<Rightarrow> date option" where
  "yearMonthDayMatch trimmed =
     (case matchPieces yearMonthDayPattern trimmed of
        Some [year, monthStr, day] \<Rightarrow>
          (case map_of months (toLowerCase monthStr) of
             Some month \<Rightarrow> Some (newDate (parseInt year) month (parseInt day))
           | None \<Rightarrow> None)
      | _ \<Rightarrow> None)"

text \<open>
  Each of the blocks of \<open>parseBirthdayInput\<close> returns a date or falls through to the next
  one; the last one is the engine's own \<open>new Date(trimmed)\<close>, the parameter \<open>nativeDate\<close>
  (\<open>None\<close> for an invalid date). The table \<open>months\<close> is read by its own keys: the one
  inherited property whose name consists of lower-case letters, \<open>constructor\<close>, for which the
  source builds an invalid date, is treated as an unknown month.
\<close>

fun orElse :: "'a option \<Rightarrow> 'a option \<Rightarrow> 'a option" where
  "orElse (Some x) y = Some x"
| "orElse None y = y"

definition parseBirthdayInput :: "(jsstring \<Rightarrow> date option) \<Rightarrow> jsstring \<Rightarrow> date option" where
  "parseBirthdayInput nativeDate input =
     (if input = [] \<or> trim input = [] then None
      else
        (let trimmed = trim input
         in orElse (isoMatch trimmed)
           (orElse (euroMatch trimmed)
           (orElse (usMatch trimmed)
           (orElse (dayMonthYearMatch trimmed)
           (orElse (monthDayYearMatch trimmed)
           (orElse (yearMonthDayMatch trimmed)
           (nativeDate trimmed))))))))"

section \<open>Formatting a date for a journal page\<close>

text \<open>\<open>numberToString\<close> is \<open>String(n)\<close> on an integer, \<open>padStart2\<close> is \<open>padStart(2, '0')\<close>.\<close>

fun natDigits :: "nat \<Rightarrow> jsstring" where
  "natDigits n = (if n < 10 then [48 + n] else natDigits (n div 10) @ [48 + n mod 10])"

declare natDigits.simps [simp del]

definition numberToString :: "int \<Rightarrow> jsstring" where
  "numberToString i = (if i < 0 then 45 # natDigits (nat (- i)) else natDigits (nat i))"

definition padStart2 :: "jsstring \<Rightarrow> jsstring" where
  "padStart2 s = replicate (2 - length s) 48 @ s"

definition formatDateForLogseq :: "date \<Rightarrow> jsstring" where
  "formatDateForLogseq d =
     (let year = getFullYear d;
          month = padStart2 (numberToString (getMonth d + 1));
          day = padStart2 (numberToString (getDate d))
      in numberToString year @ js ''-'' @ month @ js ''-'' @ day)"

section \<open>Detecting a completed birthday task\<close>

text \<open>
  \<open>matchNameAt\<close> is the regular expression of \<open>extractBirthdayPersonName\<close> tried at the start
  of a string: two opening brackets, the longest run of characters other than a closing
  bracket (the name, not empty), two closing brackets, a character of the class, which holds
  the apostrophe U+0027 twice, and \<open>s Birthday\<close>. \<open>extractBirthdayPersonName\<close> takes the
  leftmost match. \<open>setupTaskCompletionListener\<close> maps the contents of the changed blocks to
  the names for which \<open>handleBirthdayTaskCompleted\<close> is called.
\<close>

fun startsWith :: "jsstring \<Rightarrow> jsstring \<Rightarrow> bool" where
  "startsWith s p = (take (length p) s = p)"

fun includes' :: "jsstring \<Rightarrow> jsstring \<Rightarrow> bool" where
  "includes' [] p = (p = [])"
| "includes' (c # s) p = (startsWith (c # s) p \<or> includes' s p)"

definition isBirthdayTask :: "jsstring \<Rightarrow> bool" where
  "isBirthdayTask content =
     (includes' content (39 # js ''s Birthday'') \<and> includes' content (js ''[[''))"

definition matchNameAt :: "jsstring \<Rightarrow> jsstring option" where
  "matchNameAt s =
     (if startsWith s (js ''[['')
      then (let rest = drop 2 s;
                nm = takeWhile (\<lambda>c. c \<noteq> 93) rest;
                after = dropWhile (\<lambda>c. c \<noteq> 93) rest
            in if nm \<noteq> [] \<and> startsWith after (js '']]'') \<and> drop 2 after \<noteq> []
                  \<and> hd (drop 2 after) \<in> set [39, 39]
                  \<and> startsWith (drop 3 after) (js ''s Birthday'')
               then Some nm else None)
      else None)"

fun extractBirthdayPersonName :: "jsstring \<Rightarrow> jsstring option" where
  "extractBirthdayPersonName [] = None"
| "extractBirthdayPersonName (c # s) =
     (case matchNameAt (c # s) of
        Some nm \<Rightarrow> Some nm
      | None \<Rightarrow> extractBirthdayPersonName s)"

definition completedBirthdayTask :: "jsstring \<Rightarrow> jsstring option" where
  "completedBirthdayTask content =
     (if isBirthdayTask content \<and> startsWith content (js ''DONE'')
      then (case extractBirthdayPersonName content of
              Some personName \<Rightarrow> if personName \<noteq> [] then Some personName else None
            | None \<Rightarrow> None)
      else None)"

definition setupTaskCompletionListener :: "jsstring list \<Rightarrow> jsstring list" where
  "setupTaskCompletionListener blocks = List.map_filter completedBirthdayTask blocks"

section \<open>Creating a person\<close>

text \<open>
  The host application is an oracle: it answers a call, given the calls made before, by
  throwing or by returning an entity (its uuid) or \<open>null\<close>. An asynchronous function of the
  source takes the trace of the calls made so far and returns its result, or the exception it
  throws, together with the extended trace. Console output is not modelled.
\<close>

datatype propvalue = StrVal jsstring | NumVal int

datatype call =
    GetPage jsstring
  | CreatePage jsstring bool
  | AddBlockTag jsstring jsstring
  | UpsertBlockProperty jsstring jsstring propvalue
  | AppendBlockInPage jsstring jsstring

datatype reply = Throws jsstring | Returns "jsstring option"

type_synonym host = "call list \<Rightarrow> call \<Rightarrow> reply"

type_synonym 'a io = "call list \<Rightarrow> (jsstring + 'a) \<times> call list"

definition perform :: "host \<Rightarrow> call \<Rightarrow> (jsstring option) io" where
  "perform h c tr =
     (case h tr c of
        Throws e \<Rightarrow> (Inl e, tr @ [c])
      | Returns v \<Rightarrow> (Inr v, tr @ [c]))"

definition returnIO :: "'a \<Rightarrow> 'a io" where
  "returnIO x tr = (Inr x, tr)"

definition bindIO :: "'a io \<Rightarrow> ('a \<Rightarrow> 'b io) \<Rightarrow> 'b io" where
  "bindIO m f tr =
     (case m tr of
        (Inl e, tr') \<Rightarrow> (Inl e, tr')
      | (Inr x, tr') \<Rightarrow> f x tr')"

definition catchIO :: "'a io \<Rightarrow> (jsstring \<Rightarrow> 'a io) \<Rightarrow> 'a io" where
  "catchIO m handler tr =
     (case m tr of
        (Inl e, tr') \<Rightarrow> handler e tr'
      | (Inr x, tr') \<Rightarrow> (Inr x, tr'))"

definition whenIO :: "bool \<Rightarrow> (jsstring option) io \<Rightarrow> (jsstring option) io" where
  "whenIO c m = (if c then m else returnIO None)"

definition PEOPLE_TAG_UUID :: jsstring where
  "PEOPLE_TAG_UUID = js ''00000002-3698-7117-0000-000000000000''"

definition TASK_TAG_UUID :: jsstring where
  "TASK_TAG_UUID = js ''00000002-1282-1814-5700-000000000000''"

record PeopleProperties =
  pBirthday :: jsstring
  pLastContact :: jsstring
  pContactFrequency :: jsstring
  pRelationship :: jsstring
  pEmail :: jsstring
  pPhone :: jsstring

definition PEOPLE_PROPERTIES :: PeopleProperties where
  "PEOPLE_PROPERTIES =
     \<lparr>pBirthday = js ''birthday-GB6GsLcK'',
      pLastContact = js ''last-contact-zKo0vxkv'',
      pContactFrequency = js ''contact-frequency-rE_86ouV'',
      pRelationship = js ''relationship-F2JPblxy'',
      pEmail = js ''email-EYPFhTdc'',
      pPhone = js ''phone-jPxSkIoq''\<rparr>"

text \<open>
  \<open>name'\<close> is \<open>None\<close> when the name is missing (\<open>undefined\<close> or \<open>null\<close>), which the guard
  \<open>!data.name\<close> of \<open>createPerson\<close> allows for. \<open>truthy\<close> is the truth value of a string or
  \<open>null\<close>, and \<open>str\<close> reads a string known to be truthy.
\<close>

record NewPersonData =
  name' :: "jsstring option"
  birthday' :: "jsstring option"
  relationship' :: "jsstring option"
  contactFrequency' :: "int option"
  email' :: "jsstring option"

record CreateResult =
  success :: bool
  error :: "jsstring option"

definition truthy :: "jsstring option \<Rightarrow> bool" where
  "truthy v = (case v of None \<Rightarrow> False | Some s \<Rightarrow> s \<noteq> [])"

definition str :: "jsstring option \<Rightarrow> jsstring" where
  "str v = (case v of None \<Rightarrow> [] | Some s \<Rightarrow> s)"

definition createBirthdayReminderTask :: "host \<Rightarrow> date \<Rightarrow> jsstring \<Rightarrow> date \<Rightarrow> bool io" where
  "createBirthdayReminderTask h now personName bd =
     catchIO
       (let nextBirthday = getNextBirthdayDate now bd;
            journalDateStr = formatDateForLogseq nextBirthday
        in bindIO (perform h (GetPage journalDateStr)) (\<lambda>journalPage.
           bindIO (case journalPage of
                     None \<Rightarrow> perform h (CreatePage journalDateStr True)
                   | Some u \<Rightarrow> returnIO (Some u)) (\<lambda>journalPage.
           case journalPage of
             None \<Rightarrow> returnIO False
           | Some pageUuid \<Rightarrow>
               (let taskContent = js ''[['' @ personName @ js '']]'' @ [39] @ js ''s Birthday!''
                in bindIO (perform h (AppendBlockInPage pageUuid taskContent)) (\<lambda>newBlock.
                   bindIO (case newBlock of
                             Some blockUuid \<Rightarrow> perform h (AddBlockTag blockUuid TASK_TAG_UUID)
                           | None \<Rightarrow> returnIO None) (\<lambda>_.
                   returnIO True))))))
       (\<lambda>e. returnIO False)"

definition createPersonTry ::
  "host \<Rightarrow> (jsstring \<Rightarrow> date option) \<Rightarrow> date \<Rightarrow> NewPersonData \<Rightarrow> CreateResult io" where
  "createPersonTry h nativeDate now data =
     (if \<not> truthy (name' data) \<or> trim (str (name' data)) = []
      then returnIO \<lparr>success = False, error = Some (js ''Name is required'')\<rparr>
      else
        (let personName = trim (str (name' data))
         in bindIO (perform h (GetPage personName)) (\<lambda>existingPage.
            if existingPage \<noteq> None
            then returnIO \<lparr>success = False,
                   error = Some (js ''A page named '' @ [34] @ personName @ [34]
                                 @ js '' already exists'')\<rparr>
            else
              bindIO (perform h (CreatePage personName False)) (\<lambda>page.
              case page of
                None \<Rightarrow> returnIO \<lparr>success = False, error = Some (js ''Failed to create page'')\<rparr>
              | Some pageUuid \<Rightarrow>
                  bindIO (perform h (AddBlockTag pageUuid PEOPLE_TAG_UUID)) (\<lambda>_.
                  bindIO (whenIO (truthy (birthday' data))
                            (perform h (UpsertBlockProperty pageUuid
                               (pBirthday PEOPLE_PROPERTIES) (StrVal (str (birthday' data)))))) (\<lambda>_.
                  bindIO (whenIO (truthy (relationship' data))
                            (perform h (UpsertBlockProperty pageUuid
                               (pRelationship PEOPLE_PROPERTIES)
                               (StrVal (str (relationship' data)))))) (\<lambda>_.
                  bindIO (case contactFrequency' data of
                            Some f \<Rightarrow>
                              whenIO (f \<noteq> 0 \<and> f > 0)
                                (perform h (UpsertBlockProperty pageUuid
                                   (pContactFrequency PEOPLE_PROPERTIES) (NumVal f)))
                          | None \<Rightarrow> returnIO None) (\<lambda>_.
                  bindIO (whenIO (truthy (email' data))
                            (perform h (UpsertBlockProperty pageUuid
                               (pEmail PEOPLE_PROPERTIES) (StrVal (str (email' data)))))) (\<lambda>_.
                  bindIO (if truthy (birthday' data)
                          then (case nativeDate (str (birthday' data)) of
                                  Some birthdayDate \<Rightarrow>
                                    createBirthdayReminderTask h now personName birthdayDate
                                | None \<Rightarrow> returnIO False)
                          else returnIO False) (\<lambda>_.
                  returnIO \<lparr>success = True, error = None\<rparr>))))))))))"

text \<open>\<open>createPersonTry\<close> is the body of the \<open>try\<close> block, \<open>createPerson\<close> adds the \<open>catch\<close>.\<close>

definition createPerson ::
  "host \<Rightarrow> (jsstring \<Rightarrow> date option) \<Rightarrow> date \<Rightarrow> NewPersonData \<Rightarrow> call list
     \<Rightarrow> CreateResult \<times> call list" where
  "createPerson h nativeDate now data tr =
     (case createPersonTry h nativeDate now data tr of
        (Inl e, tr') \<Rightarrow> (\<lparr>success = False, error = Some e\<rparr>, tr')
      | (Inr result, tr') \<Rightarrow> (result, tr'))"

section \<open>Completing a birthday task\<close>

text \<open>
  \<open>handleBirthdayTaskCompleted\<close> first resolves the person's birthday from the person's page
  (the page lookup, \<open>findProperty\<close> and the resolution of the date reference); this part is
  the parameter \<open>resolveBirthday\<close>, which returns \<open>None\<close> where the source returns early. The
  rest is the source's: the date of the next task, the journal page for it, the task block
  and its tag. Messages to the user are not modelled.
\<close>

definition handleBirthdayTaskCompleted ::
  "host \<Rightarrow> (jsstring \<Rightarrow> (date option) io) \<Rightarrow> date \<Rightarrow> jsstring \<Rightarrow> unit io" where
  "handleBirthdayTaskCompleted h resolveBirthday now personName =
     catchIO
       (bindIO (resolveBirthday personName) (\<lambda>birthdayDate.
        case birthdayDate of
          None \<Rightarrow> returnIO ()
        | Some bd \<Rightarrow>
            (let journalDateStr = formatDateForLogseq (nextYearBirthday now bd)
             in bindIO (perform h (GetPage journalDateStr)) (\<lambda>journalPage.
                bindIO (case journalPage of
                          None \<Rightarrow> perform h (CreatePage journalDateStr True)
                        | Some u \<Rightarrow> returnIO (Some u)) (\<lambda>journalPage.
                bindIO (case journalPage of
                          Some pageUuid \<Rightarrow>
                            (let taskContent =
                                   js ''[['' @ personName @ js '']]'' @ [39] @ js ''s Birthday!''
                             in bindIO (perform h (AppendBlockInPage pageUuid taskContent))
                                  (\<lambda>newBlock.
                                   case newBlock of
                                     Some blockUuid \<Rightarrow>
                                       perform h (AddBlockTag blockUuid TASK_TAG_UUID)
                                   | None \<Rightarrow> returnIO None))
                        | None \<Rightarrow> returnIO None) (\<lambda>_.
                returnIO ()))))))
       (\<lambda>e. returnIO ())"

section \<open>Auxiliary notions for the statements\<close>

text \<open>
  \<open>digits lo hi s\<close>: the string \<open>s\<close> consists of \<open>lo\<close> to \<open>hi\<close> digits. \<open>noNativeDate\<close> is an
  engine whose \<open>Date\<close> constructor accepts no string. \<open>accepts_more p q\<close>: the piece \<open>q\<close>
  accepts what \<open>p\<close> accepts.
\<close>

definition digits :: "nat \<Rightarrow> nat \<Rightarrow> jsstring \<Rightarrow> bool" where
  "digits lo hi s = (list_all isDigit s \<and> lo \<le> length s \<and> length s \<le> hi)"

definition noNativeDate :: "jsstring \<Rightarrow> date option" where
  "noNativeDate s = None"

fun accepts_more :: "piece \<Rightarrow> piece \<Rightarrow> bool" where
  "accepts_more (OneOf c) (OneOf c') = (set c \<subseteq> set c')"
| "accepts_more p q = (p = q)"

text \<open>
  Calendar notions, with months counted from 0 as \<open>getMonth\<close> does. \<open>birthdayIn y b\<close> is the
  month and day on which the birthday \<open>b\<close> falls in the year \<open>y\<close>: its own month and day, a
  29 February falling on 1 March in a common year. \<open>carried\<close> is what becomes of a month
  and day one year after a leap year's: 29 February becomes 1 March. \<open>earlier\<close> orders months
  and days within a year. \<open>isMidnightOf t y md\<close>: the date \<open>t\<close> is 00:00 on the month and day
  \<open>md\<close> of the year \<open>y\<close>.
\<close>

definition birthdayIn :: "int \<Rightarrow> date \<Rightarrow> int \<times> int" where
  "birthdayIn y b =
     (if getMonth b = 1 \<and> getDate b = 29 \<and> DaysInYear y = 365 then (2, 1)
      else (getMonth b, getDate b))"

definition carried :: "int \<times> int \<Rightarrow> int \<times> int" where
  "carried md = (if md = (1, 29) then (2, 1) else md)"

definition earlier :: "int \<times> int \<Rightarrow> int \<times> int \<Rightarrow> bool" where
  "earlier a b = (fst a < fst b \<or> (fst a = fst b \<and> snd a < snd b))"

definition isMidnightOf :: "date \<Rightarrow> int \<Rightarrow> int \<times> int \<Rightarrow> bool" where
  "isMidnightOf t y md =
     (getFullYear t = y \<and> (getMonth t, getDate t) = md \<and> TimeWithinDay t = 0)"

section \<open>Example data\<close>

text \<open>
  The first of June 2024 and three people: Alice, born on 1990-06-01 and never contacted; Bob,
  born on 1985-06-02 and contacted 20 days before; Carol, without a birthday, contacted 5 days
  before. All three want a contact every 14 days.
\<close>

definition june1 :: date where
  "june1 = newDate 2024 5 1"

definition alice :: Person where
  "alice = \<lparr>uuid = js ''u1'', name = js ''Alice'', birthday = Some (newDate 1990 5 1),
     lastContact = None, contactFrequency = Some 14, relationship = None, email = None\<rparr>"

definition bob :: Person where
  "bob = \<lparr>uuid = js ''u2'', name = js ''Bob'', birthday = Some (newDate 1985 5 2),
     lastContact = Some (newDate 2024 4 12), contactFrequency = Some 14,
     relationship = Some (js ''friend''), email = None\<rparr>"

definition carol :: Person where
  "carol = \<lparr>uuid = js ''u3'', name = js ''Carol'', birthday = None,
     lastContact = Some (newDate 2024 4 27), contactFrequency = Some 14,
     relationship = None, email = None\<rparr>"

text \<open>
  A host in which the page Alice exists and every creation succeeds, and an engine whose
  \<open>Date\<close> constructor reads the ISO form only.
\<close>

definition aliceExists :: host where
  "aliceExists tr c =
     (case c of
        GetPage n \<Rightarrow> Returns (if n = js ''Alice'' then Some (js ''u1'') else None)
      | CreatePage n j \<Rightarrow> Returns (Some (js ''page:'' @ n))
      | AppendBlockInPage u t \<Rightarrow> Returns (Some (js ''block''))
      | _ \<Rightarrow> Returns None)"

definition isoNativeDate :: "jsstring \<Rightarrow> date option" where
  "isoNativeDate s = isoMatch s"

text \<open>
  Form data with a blank name, with the name of the existing page, and with a new name.
\<close>

definition blankData :: NewPersonData where
  "blankData = \<lparr>name' = Some (js ''   ''), birthday' = None, relationship' = None,
     contactFrequency' = None, email' = None\<rparr>"

definition aliceData :: NewPersonData where
  "aliceData = \<lparr>name' = Some (js '' Alice ''), birthday' = Some (js ''1990-06-01''),
     relationship' = None, contactFrequency' = Some 14, email' = None\<rparr>"

definition bobData :: NewPersonData where
  "bobData = \<lparr>name' = Some (js ''Bob''), birthday' = Some (js ''1985-06-02''),
     relationship' = Some (js ''friend''), contactFrequency' = Some 14, email' = None\<rparr>"

text \<open>A resolution of the birthday that makes no call and finds the date \<open>bd\<close>.\<close>

definition resolvesTo :: "date \<Rightarrow> jsstring \<Rightarrow> (date option) io" where
  "resolvesTo bd personName = returnIO (Some bd)"

text \<open>
  Nine o'clock on the first of June 2024, and a host in which every page exists and every
  block is created.
\<close>

definition june1_9am :: date where
  "june1_9am = june1 + 9 * 3600000"

definition everyPageExists :: host where
  "everyPageExists tr c =
     (case c of
        GetPage n \<Rightarrow> Returns (Some (js ''j1''))
      | AppendBlockInPage u t \<Rightarrow> Returns (Some (js ''block''))
      | _ \<Rightarrow> Returns None)"

section \<open>Properties of the sort\<close>

lemma insertBy_asc: "insertBy (\<lambda>a b. k a - k b) x xs = insort_key k x xs"
  for k :: "'a \<Rightarrow> int"
  by (induction xs) auto

lemma sortBy_asc: "sortBy (\<lambda>a b. k a - k b) xs = sort_key k xs"
  for k :: "'a \<Rightarrow> int"
  by (induction xs) (auto simp: insertBy_asc)

lemma insertBy_desc: "insertBy (\<lambda>a b. k b - k a) x xs = insort_key (\<lambda>x. - k x) x xs"
  for k :: "'a \<Rightarrow> int"
  by (induction xs) auto

lemma sortBy_desc: "sortBy (\<lambda>a b. k b - k a) xs = sort_key (\<lambda>x. - k x) xs"
  for k :: "'a \<Rightarrow> int"
  by (induction xs) (auto simp: insertBy_desc)

lemma sorted_desc: "sorted (map (\<lambda>x. - k x) xs) \<Longrightarrow> sorted (rev (map k xs))"
  for k :: "'a \<Rightarrow> int"
  by (induction xs) (auto simp: sorted_append)

section \<open>Birthday reminders\<close>

lemma upcoming_fields:
  "r \<in> set (upcomingReminders now people w) \<Longrightarrow>
   \<exists>b. birthday (person r) = Some b \<and> daysUntil r = getDaysUntilBirthday now b \<and>
     daysUntil r \<le> w \<and>
     age r = (if daysUntil r = 0 then calculateAge now b else calculateAge now b + 1)"
  by (induction people) (auto simp: Let_def split: option.splits if_splits)

lemma set_getUpcomingBirthdays:
  "set (getUpcomingBirthdays now people w) = set (upcomingReminders now people w)"
  by (simp add: getUpcomingBirthdays_def sortBy_asc)

lemma upcoming_example:
  "getUpcomingBirthdays june1 [alice, bob, carol] 30 =
     [\<lparr>person = alice, daysUntil = 0, age = 34\<rparr>, \<lparr>person = bob, daysUntil = 1, age = 39\<rparr>]"
  by code_simp

text \<open>
  C2, as the code has it. The reminder of a person whose birthday is \<open>b\<close> carries
  \<open>calculateAge b\<close> when \<open>daysUntil\<close> is 0 (the age reached today is already counted) and
  \<open>calculateAge b + 1\<close> otherwise: the two cases of the claim are the other way round.
\<close>

theorem getUpcomingBirthdays_age:
  assumes "r \<in> set (getUpcomingBirthdays now people w)" and "birthday (person r) = Some b"
  shows "daysUntil r = getDaysUntilBirthday now b \<and>
         age r = (if daysUntil r = 0 then calculateAge now b else calculateAge now b + 1)"
  using upcoming_fields [of r now people w] assms by (auto simp: set_getUpcomingBirthdays)

theorem getUpcomingBirthdays_age_witness:
  "\<lparr>person = alice, daysUntil = 0, age = 34\<rparr> \<in> set (getUpcomingBirthdays june1 [alice, bob, carol] 30) \<and>
   birthday alice = Some (newDate 1990 5 1) \<and>
   getDaysUntilBirthday june1 (newDate 1990 5 1) = 0 \<and>
   calculateAge june1 (newDate 1990 5 1) = 34"
proof -
  have m: "\<lparr>person = alice, daysUntil = 0, age = 34\<rparr>
             \<in> set (getUpcomingBirthdays june1 [alice, bob, carol] 30)"
    by (simp add: upcoming_example)
  have b: "birthday (person \<lparr>person = alice, daysUntil = 0, age = 34\<rparr>) = Some (newDate 1990 5 1)"
    by (simp add: alice_def)
  from getUpcomingBirthdays_age [OF m b] m b show ?thesis by simp
qed

text \<open>
  C2, as the claim states it, fails on the first of June 2024 for Alice, born on 1990-06-01:
  her birthday is today (\<open>daysUntil = 0\<close>) and the reminder carries 34, which is
  \<open>calculateAge\<close> and not \<open>calculateAge + 1 = 35\<close>.
\<close>

theorem getUpcomingBirthdays_age_counterexample:
  "getUpcomingBirthdays june1 [alice] 30 = [\<lparr>person = alice, daysUntil = 0, age = 34\<rparr>] \<and>
   birthday alice = Some (newDate 1990 5 1) \<and>
   34 \<noteq> calculateAge june1 (newDate 1990 5 1) + 1"
  by code_simp

text \<open>
  C8. The list of birthday reminders is sorted by \<open>daysUntil\<close>, ascending; no entry is
  beyond the window; every entry is for a person with a birthday; and the entries with the
  same \<open>daysUntil\<close> stand in the order of their people in the input.
\<close>

theorem getUpcomingBirthdays_sorted_window:
  "sorted (map daysUntil (getUpcomingBirthdays now people w)) \<and>
   (\<forall>r \<in> set (getUpcomingBirthdays now people w).
      daysUntil r \<le> w \<and> birthday (person r) \<noteq> None) \<and>
   (\<forall>k. map person (filter (\<lambda>r. daysUntil r = k) (getUpcomingBirthdays now people w)) =
        filter (\<lambda>p. case birthday p of None \<Rightarrow> False
                     | Some b \<Rightarrow> getDaysUntilBirthday now b = k \<and> k \<le> w) people)"
proof (intro conjI ballI allI)
  show "sorted (map daysUntil (getUpcomingBirthdays now people w))"
    by (simp add: getUpcomingBirthdays_def sortBy_asc)
next
  fix r assume "r \<in> set (getUpcomingBirthdays now people w)"
  then have "r \<in> set (upcomingReminders now people w)"
    by (simp add: set_getUpcomingBirthdays)
  from upcoming_fields [OF this]
  show "daysUntil r \<le> w" "birthday (person r) \<noteq> None" by auto
next
  fix k
  let ?due = "\<lambda>p. case birthday p of None \<Rightarrow> False
                   | Some b \<Rightarrow> getDaysUntilBirthday now b = k \<and> k \<le> w"
  have "map person (filter (\<lambda>r. daysUntil r = k) (getUpcomingBirthdays now people w)) =
        map person (filter (\<lambda>r. daysUntil r = k) (upcomingReminders now people w))"
    by (simp add: getUpcomingBirthdays_def sortBy_asc sort_key_stable)
  also have "\<dots> = filter ?due people"
    by (induction people) (auto simp: Let_def split: option.splits)
  finally show "map person (filter (\<lambda>r. daysUntil r = k) (getUpcomingBirthdays now people w)) =
        filter ?due people" .
qed

theorem getUpcomingBirthdays_sorted_window_witness:
  "\<lparr>person = bob, daysUntil = 1, age = 39\<rparr> \<in> set (getUpcomingBirthdays june1 [alice, bob, carol] 30) \<and>
   (1::int) \<le> 30 \<and> birthday bob \<noteq> None \<and>
   sorted (map daysUntil (getUpcomingBirthdays june1 [alice, bob, carol] 30)) \<and>
   map person (filter (\<lambda>r. daysUntil r = 1) (getUpcomingBirthdays june1 [alice, bob, carol] 30)) = [bob]"
proof -
  have m: "\<lparr>person = bob, daysUntil = 1, age = 39\<rparr>
             \<in> set (getUpcomingBirthdays june1 [alice, bob, carol] 30)"
    by (simp add: upcoming_example)
  have f: "map person (filter (\<lambda>r. daysUntil r = 1)
             (getUpcomingBirthdays june1 [alice, bob, carol] 30)) = [bob]"
    by (simp add: upcoming_example)
  from getUpcomingBirthdays_sorted_window [of june1 "[alice, bob, carol]" 30] m f
  show ?thesis by fastforce
qed

section \<open>Contact reminders\<close>

text \<open>
  Where \<open>lastContact\<close> is set, the local \<open>daysOverdue\<close> of the loop is the finite number that
  \<open>contactReminders\<close> pushes.
\<close>

lemma daysOverdue_finite:
  "lastContact p = Some d \<Longrightarrow> minus_number (daysSinceOf now p) f = Num (getDaysSince now d - f)"
  by (simp add: daysSinceOf_def)

lemma contact_person: "map person' (contactReminders now people) = filter (isDue now) people"
  by (induction people) (auto simp: isDue_def daysSinceOf_def Let_def split: option.splits)

lemma contact_fields:
  "r \<in> set (contactReminders now people) \<longleftrightarrow>
   (\<exists>p \<in> set people. \<exists>f. contactFrequency p = Some f \<and> f \<noteq> 0 \<and>
      ((\<exists>d. lastContact p = Some d \<and> 0 \<le> getDaysSince now d - f \<and>
            r = \<lparr>person' = p, daysSinceContact = getDaysSince now d,
                  daysOverdue = getDaysSince now d - f\<rparr>) \<or>
       (lastContact p = None \<and> r = \<lparr>person' = p, daysSinceContact = - 1, daysOverdue = f\<rparr>)))"
proof (induction people)
  case Nil
  then show ?case by simp
next
  case (Cons p people)
  show ?case
  proof (cases "contactFrequency p")
    case None
    then show ?thesis using Cons.IH by auto
  next
    case (Some f)
    show ?thesis
    proof (cases "lastContact p")
      case None
      then show ?thesis using Some Cons.IH by (auto simp: daysSinceOf_def Let_def)
    next
      case (Some d)
      then show ?thesis using \<open>contactFrequency p = Some f\<close> Cons.IH
        by (auto simp: daysSinceOf_def Let_def)
    qed
  qed
qed

lemma set_getPeopleToContact:
  "set (getPeopleToContact now people) = set (contactReminders now people)"
  by (simp add: getPeopleToContact_def sortBy_desc)

lemma getPeopleToContact_stable:
  "filter (\<lambda>r. daysOverdue r = k) (getPeopleToContact now people)
     = filter (\<lambda>r. daysOverdue r = k) (contactReminders now people)"
proof -
  have e: "(\<lambda>r. daysOverdue r = k) = (\<lambda>r. - daysOverdue r = - k)" by auto
  show ?thesis
    unfolding getPeopleToContact_def sortBy_desc e by (rule sort_key_stable)
qed

lemma contact_example:
  "getPeopleToContact june1 [carol, bob, alice] =
     [\<lparr>person' = alice, daysSinceContact = - 1, daysOverdue = 14\<rparr>,
      \<lparr>person' = bob, daysSinceContact = 20, daysOverdue = 6\<rparr>]"
  by code_simp


text \<open>
  C6. A reminder is in the list of people to contact exactly when it is the reminder of an
  input person with a configured frequency \<open>f\<close> who either was last contacted on \<open>d\<close> with
  \<open>daysOverdue = getDaysSince d - f \<ge> 0\<close>, or was never contacted, and then with
  \<open>daysOverdue = f\<close>. The people of the list are, with their multiplicities, the input
  people that pass the test \<open>isDue\<close>, and the list is sorted by \<open>daysOverdue\<close>, descending.
\<close>

theorem getPeopleToContact_exact_sorted:
  "(r \<in> set (getPeopleToContact now people) \<longleftrightarrow>
     (\<exists>p \<in> set people. \<exists>f. contactFrequency p = Some f \<and> f \<noteq> 0 \<and>
        ((\<exists>d. lastContact p = Some d \<and> 0 \<le> getDaysSince now d - f \<and>
              r = \<lparr>person' = p, daysSinceContact = getDaysSince now d,
                    daysOverdue = getDaysSince now d - f\<rparr>) \<or>
         (lastContact p = None \<and>
              r = \<lparr>person' = p, daysSinceContact = - 1, daysOverdue = f\<rparr>)))) \<and>
   mset (map person' (getPeopleToContact now people)) = mset (filter (isDue now) people) \<and>
   sorted (rev (map daysOverdue (getPeopleToContact now people)))"
proof (intro conjI)
  show "r \<in> set (getPeopleToContact now people) \<longleftrightarrow>
     (\<exists>p \<in> set people. \<exists>f. contactFrequency p = Some f \<and> f \<noteq> 0 \<and>
        ((\<exists>d. lastContact p = Some d \<and> 0 \<le> getDaysSince now d - f \<and>
              r = \<lparr>person' = p, daysSinceContact = getDaysSince now d,
                    daysOverdue = getDaysSince now d - f\<rparr>) \<or>
         (lastContact p = None \<and>
              r = \<lparr>person' = p, daysSinceContact = - 1, daysOverdue = f\<rparr>)))"
    unfolding set_getPeopleToContact by (rule contact_fields)
next
  have "mset (map person' (getPeopleToContact now people)) =
        mset (map person' (contactReminders now people))"
    by (simp add: getPeopleToContact_def sortBy_desc)
  then show "mset (map person' (getPeopleToContact now people)) = mset (filter (isDue now) people)"
    by (simp add: contact_person)
next
  have "sorted (map (\<lambda>r. - daysOverdue r) (getPeopleToContact now people))"
    by (simp add: getPeopleToContact_def sortBy_desc)
  then show "sorted (rev (map daysOverdue (getPeopleToContact now people)))"
    by (rule sorted_desc)
qed

text \<open>
  The examples of the specification: with a frequency of 14 days, the person never contacted
  has \<open>daysOverdue = 14\<close>, the one contacted 20 days ago has 6, and the one contacted 5 days
  ago is absent.
\<close>

theorem getPeopleToContact_exact_sorted_witness:
  "getDaysSince june1 (newDate 2024 4 12) = 20 \<and> getDaysSince june1 (newDate 2024 4 27) = 5 \<and>
   \<lparr>person' = alice, daysSinceContact = - 1, daysOverdue = 14\<rparr>
      \<in> set (getPeopleToContact june1 [carol, bob, alice]) \<and>
   \<lparr>person' = bob, daysSinceContact = 20, daysOverdue = 6\<rparr>
      \<in> set (getPeopleToContact june1 [carol, bob, alice]) \<and>
   map person' (getPeopleToContact june1 [carol, bob, alice]) = [alice, bob] \<and>
   mset [alice, bob] = mset (filter (isDue june1) [carol, bob, alice]) \<and>
   sorted (rev (map daysOverdue (getPeopleToContact june1 [carol, bob, alice])))"
proof -
  have d: "getDaysSince june1 (newDate 2024 4 12) = 20" "getDaysSince june1 (newDate 2024 4 27) = 5"
    by code_simp+
  have e: "map person' (getPeopleToContact june1 [carol, bob, alice]) = [alice, bob]"
    by (simp add: contact_example)
  from getPeopleToContact_exact_sorted
         [of "\<lparr>person' = alice, daysSinceContact = - 1, daysOverdue = 14\<rparr>" june1 "[carol, bob, alice]"]
  show ?thesis using d e by (simp add: contact_example)
qed

text \<open>
  C10. For a person with a configured frequency and no \<open>lastContact\<close>, the local
  \<open>daysSince\<close> is \<open>Infinity\<close>, the test \<open>daysOverdue >= 0\<close> on \<open>Infinity - f\<close> succeeds, the
  person's reminder is in the list, and every reminder of that person carries
  \<open>daysSinceContact = -1\<close>.
\<close>

theorem getPeopleToContact_never_contacted:
  assumes "p \<in> set people" and "contactFrequency p = Some f" and "f \<noteq> 0"
    and "lastContact p = None"
  shows "daysSinceOf now p = Infinity \<and> ge0 (minus_number (daysSinceOf now p) f) \<and>
         \<lparr>person' = p, daysSinceContact = - 1, daysOverdue = f\<rparr>
            \<in> set (getPeopleToContact now people) \<and>
         (\<forall>r \<in> set (getPeopleToContact now people). person' r = p \<longrightarrow> daysSinceContact r = - 1)"
proof (intro conjI ballI impI)
  show i: "daysSinceOf now p = Infinity" using assms by (simp add: daysSinceOf_def)
  show "ge0 (minus_number (daysSinceOf now p) f)" by (simp add: i)
  show "\<lparr>person' = p, daysSinceContact = - 1, daysOverdue = f\<rparr>
          \<in> set (getPeopleToContact now people)"
    unfolding set_getPeopleToContact contact_fields using assms by blast
  fix r assume "r \<in> set (getPeopleToContact now people)" "person' r = p"
  then show "daysSinceContact r = - 1"
    unfolding set_getPeopleToContact contact_fields using assms by auto
qed

theorem getPeopleToContact_never_contacted_witness:
  "alice \<in> set [carol, bob, alice] \<and> contactFrequency alice = Some 14 \<and> (14::int) \<noteq> 0 \<and>
   lastContact alice = None \<and> daysSinceOf june1 alice = Infinity \<and>
   \<lparr>person' = alice, daysSinceContact = - 1, daysOverdue = 14\<rparr>
      \<in> set (getPeopleToContact june1 [carol, bob, alice]) \<and>
   person' (hd (getPeopleToContact june1 [carol, bob, alice])) = alice \<and>
   daysSinceContact (hd (getPeopleToContact june1 [carol, bob, alice])) = - 1"
proof -
  have a: "alice \<in> set [carol, bob, alice]" by simp
  have b: "contactFrequency alice = Some 14" "lastContact alice = None"
    by (simp_all add: alice_def)
  have c: "(14::int) \<noteq> 0" by simp
  have h: "hd (getPeopleToContact june1 [carol, bob, alice]) \<in> set (getPeopleToContact june1 [carol, bob, alice])"
    "person' (hd (getPeopleToContact june1 [carol, bob, alice])) = alice"
    by (simp_all add: contact_example)
  from getPeopleToContact_never_contacted [OF a b(1) c b(2), of june1] a b c h
  show ?thesis by blast
qed

section \<open>Properties of the calendar\<close>


lemma yearDown_le: "DayFromYear (yearDown y d) \<le> d"
proof (induction y d rule: yearDown.induct)
  case (1 y d)
  then show ?case by (subst yearDown.simps) auto
qed

lemma yearUp_bounds:
  "DayFromYear y \<le> d \<Longrightarrow>
   DayFromYear (yearUp y d) \<le> d \<and> d < DayFromYear (yearUp y d + 1)"
proof (induction y d rule: yearUp.induct)
  case (1 y d)
  show ?case
  proof (cases "DayFromYear (y + 1) \<le> d")
    case True
    then show ?thesis using "1.IH" by (subst (1 2) yearUp.simps) simp
  next
    case False
    then show ?thesis using "1.prems" by (subst (1 2) yearUp.simps) simp
  qed
qed

lemma YearFromDay_bounds:
  "DayFromYear (YearFromDay d) \<le> d \<and> d < DayFromYear (YearFromDay d + 1)"
  unfolding YearFromDay_def by (rule yearUp_bounds) (rule yearDown_le)

lemma DayFromYear_mono: "y \<le> z \<Longrightarrow> DayFromYear y \<le> DayFromYear z"
proof (induction z rule: int_ge_induct)
  case base
  show ?case by simp
next
  case (step i)
  then show ?case using DayFromYear_less_next [of i] by simp
qed

lemma YearFromDay_unique:
  assumes "DayFromYear y \<le> d" and "d < DayFromYear (y + 1)"
  shows "YearFromDay d = y"
proof (rule ccontr)
  assume ne: "YearFromDay d \<noteq> y"
  let ?z = "YearFromDay d"
  from YearFromDay_bounds [of d] have b: "DayFromYear ?z \<le> d" "d < DayFromYear (?z + 1)" by simp_all
  from ne consider "?z + 1 \<le> y" | "y + 1 \<le> ?z" by linarith
  then show False
  proof cases
    case 1
    from DayFromYear_mono [OF 1] b assms show False by simp
  next
    case 2
    from DayFromYear_mono [OF 2] b assms show False by simp
  qed
qed

lemma msPerDay_pos: "0 < msPerDay" by (simp add: msPerDay_def)

lemma Day_MakeDate: "0 \<le> t \<Longrightarrow> t < msPerDay \<Longrightarrow> Day (MakeDate d t) = d"
  using msPerDay_pos by (simp add: Day_def MakeDate_def)

lemma Day_midnight [simp]: "Day (MakeDate d 0) = d"
  using msPerDay_pos by (simp add: Day_def MakeDate_def)

lemma leap_cases: "(if DaysInYear y = 366 then 1 else 0) = (DaysInYear y - 365)"
  using DaysInYear_cases [of y] by auto

lemma DayWithinYear_bounds:
  "0 \<le> DayWithinYear t \<and> DayWithinYear t < 365 + InLeapYear t"
proof -
  have "DayFromYear (YearFromTime t) \<le> Day t" "Day t < DayFromYear (YearFromTime t + 1)"
    using YearFromDay_bounds [of "Day t"] by (simp_all add: YearFromTime_def)
  then show ?thesis
    using DaysInYear_cases [of "YearFromTime t"]
    by (auto simp: DayWithinYear_def InLeapYear_def DayFromYear_next)
qed

lemma InLeapYear_cases: "InLeapYear t = 0 \<or> InLeapYear t = 1"
  by (simp add: InLeapYear_def)

lemma fields_table:
  "0 \<le> MonthFromTime t \<and> MonthFromTime t \<le> 11 \<and> 1 \<le> DateFromTime t \<and>
   DateFromTime t \<le> daysInMonth (InLeapYear t) (MonthFromTime t) \<and>
   monthStart (InLeapYear t) (MonthFromTime t) + DateFromTime t - 1 = DayWithinYear t"
  using DayWithinYear_bounds [of t] InLeapYear_cases [of t]
  by (auto simp: MonthFromTime_def DateFromTime_def monthStart_def daysInMonth_def Let_def)



lemma monthStart_nonneg: "0 \<le> l \<Longrightarrow> 0 \<le> monthStart l m"
  by (simp add: monthStart_def)

lemma MakeDay_in_range:
  assumes "0 \<le> m" "m \<le> 11"
  shows "MakeDay y m d = DayFromYear y + monthStart (DaysInYear y - 365) m + d - 1"
proof -
  have "m div 12 = 0" "m mod 12 = m" using assms by simp_all
  then show ?thesis by (simp add: MakeDay_def leap_cases Let_def)
qed

lemma MakeDay_lower:
  assumes "0 \<le> m" "m \<le> 11" "1 \<le> d"
  shows "DayFromYear y \<le> MakeDay y m d"
  using assms DaysInYear_cases [of y] monthStart_nonneg [of "DaysInYear y - 365" m]
  by (auto simp: MakeDay_in_range)

lemma monthStart_upper: "0 \<le> m \<Longrightarrow> m \<le> 11 \<Longrightarrow> monthStart l m \<le> 334 + l \<or> monthStart l m \<le> 334"
  by (simp add: monthStart_def)

lemma YearFromDay_MakeDay:
  assumes "0 \<le> m" "m \<le> 11" "1 \<le> d" "d \<le> 31"
  shows "YearFromDay (MakeDay y m d) = y"
proof (rule YearFromDay_unique)
  show "DayFromYear y \<le> MakeDay y m d" using assms by (simp add: MakeDay_lower)
  have "monthStart (DaysInYear y - 365) m \<le> 334 + (DaysInYear y - 365)"
    using assms DaysInYear_cases [of y] by (auto simp: monthStart_def)
  then show "MakeDay y m d < DayFromYear (y + 1)"
    using assms by (simp add: MakeDay_in_range DayFromYear_next)
qed

lemma MakeDay_fields:
  "MakeDay (YearFromTime t) (MonthFromTime t) (DateFromTime t) = Day t"
proof -
  have l: "DaysInYear (YearFromTime t) - 365 = InLeapYear t"
    using DaysInYear_cases [of "YearFromTime t"] by (auto simp: InLeapYear_def)
  show ?thesis
    using fields_table [of t] by (simp add: MakeDay_in_range l DayWithinYear_def)
qed

lemma month_table:
  assumes "InLeapYear t = l" "l = 0 \<or> l = 1" "0 \<le> m" "m \<le> 11" "1 \<le> d" "d \<le> daysInMonth l m"
    and "DayWithinYear t = monthStart l m + d - 1"
  shows "MonthFromTime t = m \<and> DateFromTime t = d"
proof -
  from assms(3,4) have "m = 0 \<or> m = 1 \<or> m = 2 \<or> m = 3 \<or> m = 4 \<or> m = 5 \<or> m = 6
    \<or> m = 7 \<or> m = 8 \<or> m = 9 \<or> m = 10 \<or> m = 11" by arith
  then show ?thesis
    using assms(1,2,5,6,7)
    by (elim disjE)
      (auto simp: MonthFromTime_def DateFromTime_def monthStart_def daysInMonth_def Let_def)
qed

lemma fields_MakeDay:
  assumes "0 \<le> m" "m \<le> 11" "1 \<le> d" "d \<le> daysInMonth (DaysInYear y - 365) m"
  shows "YearFromTime (MakeDate (MakeDay y m d) 0) = y \<and>
         MonthFromTime (MakeDate (MakeDay y m d) 0) = m \<and>
         DateFromTime (MakeDate (MakeDay y m d) 0) = d"
proof -
  let ?t = "MakeDate (MakeDay y m d) 0"
  let ?l = "DaysInYear y - 365"
  have l: "?l = 0 \<or> ?l = 1" using DaysInYear_cases [of y] by auto
  have "d \<le> 31" using assms(4) l by (auto simp: daysInMonth_def split: if_splits)
  then have y: "YearFromTime ?t = y"
    using assms by (simp add: YearFromTime_def YearFromDay_MakeDay)
  have il: "InLeapYear ?t = ?l"
    using DaysInYear_cases [of y] by (auto simp: InLeapYear_def y)
  have dw: "DayWithinYear ?t = monthStart ?l m + d - 1"
    unfolding DayWithinYear_def y Day_midnight using assms by (simp add: MakeDay_in_range)
  from month_table [OF il l assms(1,2,3,4) dw] y show ?thesis by simp
qed



lemma date_le_31: "DateFromTime t \<le> 31"
  using fields_table [of t] InLeapYear_cases [of t]
  by (auto simp: daysInMonth_def split: if_splits)

lemma TimeWithinDay_midnight [simp]: "TimeWithinDay (MakeDate d 0) = 0"
  by (simp add: TimeWithinDay_def MakeDate_def)

lemma MakeDate_less_iff [simp]: "MakeDate a 0 < MakeDate b 0 \<longleftrightarrow> a < b"
  using msPerDay_pos by (simp add: MakeDate_def)

lemma MakeDate_le_iff [simp]: "MakeDate a 0 \<le> MakeDate b 0 \<longleftrightarrow> a \<le> b"
  using msPerDay_pos by (simp add: MakeDate_def)

lemma MakeDate_eq_iff [simp]: "MakeDate a 0 = MakeDate b 0 \<longleftrightarrow> a = b"
  using msPerDay_pos by (simp add: MakeDate_def)

lemma ceilDiv_midnights [simp]: "ceilDiv (MakeDate a 0 - MakeDate b 0) msPerDay = a - b"
proof -
  have "- (MakeDate a 0 - MakeDate b 0) = (b - a) * msPerDay"
    by (simp add: MakeDate_def algebra_simps)
  then show ?thesis using msPerDay_pos by (simp add: ceilDiv_def)
qed

lemma now_before_next_midnight: "Day t < d \<Longrightarrow> t < MakeDate d 0"
proof -
  assume "Day t < d"
  then have "Day t + 1 \<le> d" by simp
  then have "(Day t + 1) * msPerDay \<le> d * msPerDay"
    using msPerDay_pos by (simp only: mult_le_cancel_right) simp
  moreover have "t = Day t * msPerDay + t mod msPerDay" by (simp add: Day_def)
  moreover have "t mod msPerDay < msPerDay" using msPerDay_pos by simp
  ultimately show ?thesis by (simp add: MakeDate_def algebra_simps)
qed

lemma setFullYear_midnight:
  "setFullYear (MakeDate d 0) y =
     MakeDate (MakeDay y (MonthFromTime (MakeDate d 0)) (DateFromTime (MakeDate d 0))) 0"
  by (simp add: setFullYear_def)

lemma year_setFullYear: "YearFromTime (setFullYear (MakeDate d 0) y) = y"
  using fields_table [of "MakeDate d 0"] date_le_31 [of "MakeDate d 0"]
  by (simp add: setFullYear_midnight YearFromTime_def YearFromDay_MakeDay)

lemma setFullYear_lower: "DayFromYear y \<le> Day (setFullYear (MakeDate d 0) y)"
  using fields_table [of "MakeDate d 0"]
  by (simp add: setFullYear_midnight MakeDay_lower)

lemma year_today [simp]: "YearFromTime (setHours0 now) = YearFromTime now"
  by (simp add: setHours0_def YearFromTime_def)

lemma next_year_after: "Day now < DayFromYear (YearFromTime now + 1)"
  using YearFromDay_bounds [of "Day now"] by (simp add: YearFromTime_def)

lemma not_feb29:
  assumes "\<not> (MonthFromTime b = 1 \<and> DateFromTime b = 29)"
  shows "DateFromTime b \<le> daysInMonth l (MonthFromTime b) \<or> l < 0"
  using fields_table [of b] InLeapYear_cases [of b] assms
  by (auto simp: daysInMonth_def split: if_splits)


text \<open>The order of the days of one year, and the fields of a date built from fields.\<close>

lemma same_day_fields:
  assumes "Day s = Day t"
  shows "YearFromTime s = YearFromTime t" "MonthFromTime s = MonthFromTime t"
    "DateFromTime s = DateFromTime t"
proof -
  show y: "YearFromTime s = YearFromTime t" using assms by (simp add: YearFromTime_def)
  have l: "InLeapYear s = InLeapYear t" by (simp add: InLeapYear_def y)
  have d: "DayWithinYear s = DayWithinYear t" by (simp add: DayWithinYear_def y assms)
  show m: "MonthFromTime s = MonthFromTime t" by (simp add: MonthFromTime_def l d)
  show "DateFromTime s = DateFromTime t" by (simp add: DateFromTime_def l d m)
qed

lemma Day_decomp:
  "Day t = DayFromYear (YearFromTime t)
             + monthStart (InLeapYear t) (MonthFromTime t) + DateFromTime t - 1"
  using fields_table [of t] by (simp add: DayWithinYear_def)

lemma monthStart_step:
  assumes "0 \<le> m" "m \<le> 10"
  shows "monthStart l (m + 1) = monthStart l m + daysInMonth l m"
proof -
  from assms have "m = 0 \<or> m = 1 \<or> m = 2 \<or> m = 3 \<or> m = 4 \<or> m = 5 \<or> m = 6
    \<or> m = 7 \<or> m = 8 \<or> m = 9 \<or> m = 10" by arith
  then show ?thesis
    by (elim disjE) (simp_all add: monthStart_def daysInMonth_def)
qed

lemma daysInMonth_pos: "0 \<le> l \<Longrightarrow> 0 < daysInMonth l m"
  by (simp add: daysInMonth_def)

lemma monthStart_mono:
  assumes "0 \<le> l" "0 \<le> m" "m \<le> n" "n \<le> 11"
  shows "monthStart l m \<le> monthStart l n"
  using assms(3,2,4)
proof (induction n rule: int_ge_induct)
  case base
  show ?case by simp
next
  case (step i)
  then have "monthStart l (i + 1) = monthStart l i + daysInMonth l i"
    by (intro monthStart_step) simp_all
  then show ?case using step daysInMonth_pos [OF assms(1), of i] by simp
qed

lemma day_order:
  assumes "YearFromTime s = YearFromTime t"
  shows "Day s < Day t \<longleftrightarrow>
         earlier (MonthFromTime s, DateFromTime s) (MonthFromTime t, DateFromTime t)"
proof -
  let ?l = "InLeapYear s"
  have l: "InLeapYear t = ?l" by (simp add: InLeapYear_def assms)
  have l0: "0 \<le> ?l" using InLeapYear_cases [of s] by auto
  note fs = fields_table [of s] and ft = fields_table [of t]
  have less: "monthStart ?l m + d < monthStart ?l n + e"
    if "0 \<le> m" "m < n" "n \<le> 11" "d \<le> daysInMonth ?l m" "1 \<le> e" for m n d e
  proof -
    have "monthStart ?l (m + 1) = monthStart ?l m + daysInMonth ?l m"
      using that by (intro monthStart_step) simp_all
    moreover have "monthStart ?l (m + 1) \<le> monthStart ?l n"
      using that l0 by (intro monthStart_mono) simp_all
    ultimately show ?thesis using that by simp
  qed
  consider "MonthFromTime s < MonthFromTime t" | "MonthFromTime t < MonthFromTime s"
    | "MonthFromTime s = MonthFromTime t" by linarith
  then show ?thesis
  proof cases
    case 1
    from less [of "MonthFromTime s" "MonthFromTime t" "DateFromTime s" "DateFromTime t"] 1 fs ft
    show ?thesis
      by (simp add: Day_decomp [of s] Day_decomp [of t] assms l earlier_def)
  next
    case 2
    from less [of "MonthFromTime t" "MonthFromTime s" "DateFromTime t" "DateFromTime s"] 2 fs ft
    show ?thesis
      by (simp add: Day_decomp [of s] Day_decomp [of t] assms l earlier_def)
  next
    case 3
    then show ?thesis
      by (simp add: Day_decomp [of s] Day_decomp [of t] assms l earlier_def)
  qed
qed

lemma leap_mod4: "DaysInYear y = 366 \<Longrightarrow> y mod 4 = 0"
  by (auto simp: DaysInYear_def split: if_splits)

lemma leap_next_common: "DaysInYear y = 366 \<Longrightarrow> DaysInYear (y + 1) = 365"
proof -
  assume "DaysInYear y = 366"
  then have "y mod 4 = 0" by (rule leap_mod4)
  then have "(y + 1) mod 4 \<noteq> 0" by presburger
  then show ?thesis by (simp add: DaysInYear_def)
qed

lemma leap_flag: "DaysInYear (YearFromTime t) - 365 = InLeapYear t"
  using DaysInYear_cases [of "YearFromTime t"] by (auto simp: InLeapYear_def)

lemma feb29_carried:
  assumes "DaysInYear y = 365"
  shows "YearFromTime (MakeDate (MakeDay y 1 29) 0) = y \<and>
         MonthFromTime (MakeDate (MakeDay y 1 29) 0) = 2 \<and>
         DateFromTime (MakeDate (MakeDay y 1 29) 0) = 1"
proof -
  have "MakeDay y 1 29 = MakeDay y 2 1"
    using assms by (simp add: MakeDay_in_range monthStart_def)
  then show ?thesis
    using fields_MakeDay [of 2 1 y] assms by (simp add: daysInMonth_def)
qed

lemma date_fits:
  assumes "\<not> (MonthFromTime b = 1 \<and> DateFromTime b = 29 \<and> l = 0)" "l = 0 \<or> l = 1"
  shows "DateFromTime b \<le> daysInMonth l (MonthFromTime b)"
  using fields_table [of b] InLeapYear_cases [of b] assms
  by (auto simp: daysInMonth_def split: if_splits)

lemma MakeDay_of_fields:
  assumes "l = DaysInYear y - 365"
  shows "YearFromTime (MakeDate (MakeDay y (MonthFromTime b) (DateFromTime b)) 0) = y \<and>
         (MonthFromTime (MakeDate (MakeDay y (MonthFromTime b) (DateFromTime b)) 0),
          DateFromTime (MakeDate (MakeDay y (MonthFromTime b) (DateFromTime b)) 0))
           = (if MonthFromTime b = 1 \<and> DateFromTime b = 29 \<and> DaysInYear y = 365 then (2, 1)
              else (MonthFromTime b, DateFromTime b))"
proof (cases "MonthFromTime b = 1 \<and> DateFromTime b = 29 \<and> DaysInYear y = 365")
  case True
  then show ?thesis using feb29_carried [of y] by simp
next
  case False
  have l: "l = 0 \<or> l = 1" using assms DaysInYear_cases [of y] by auto
  have "\<not> (MonthFromTime b = 1 \<and> DateFromTime b = 29 \<and> l = 0)"
    using False assms by auto
  from date_fits [OF this l] have "DateFromTime b \<le> daysInMonth (DaysInYear y - 365) (MonthFromTime b)"
    using assms by simp
  with fields_MakeDay [of "MonthFromTime b" "DateFromTime b" y] fields_table [of b] False
  show ?thesis by simp
qed

lemma newDate_fields:
  assumes "y < 0 \<or> 99 < y"
  shows "isMidnightOf (newDate y (getMonth b) (getDate b)) y (birthdayIn y b)"
proof -
  let ?t = "MakeDate (MakeDay y (MonthFromTime b) (DateFromTime b)) 0"
  have n: "newDate y (MonthFromTime b) (DateFromTime b) = ?t"
    using assms by (auto simp: newDate_def Let_def)
  have "YearFromTime ?t = y \<and> (MonthFromTime ?t, DateFromTime ?t) = birthdayIn y b
          \<and> TimeWithinDay ?t = 0"
    using MakeDay_of_fields [of "DaysInYear y - 365" y b]
    by (simp add: birthdayIn_def getMonth_def getDate_def)
  then show ?thesis
    by (simp only: isMidnightOf_def getFullYear_def getMonth_def getDate_def n)
qed

lemma setFullYear_fields:
  assumes "TimeWithinDay t = 0"
  shows "isMidnightOf (setFullYear t (getFullYear t + 1)) (getFullYear t + 1)
           (carried (getMonth t, getDate t))"
proof -
  let ?y = "YearFromTime t + 1"
  have s: "setFullYear t ?y = MakeDate (MakeDay ?y (MonthFromTime t) (DateFromTime t)) 0"
    using assms by (simp add: setFullYear_def)
  have c: "(if MonthFromTime t = 1 \<and> DateFromTime t = 29 \<and> DaysInYear ?y = 365 then (2, 1)
            else (MonthFromTime t, DateFromTime t)) = carried (MonthFromTime t, DateFromTime t)"
  proof (cases "MonthFromTime t = 1 \<and> DateFromTime t = 29")
    case True
    then have "InLeapYear t = 1"
      using fields_table [of t] InLeapYear_cases [of t] by (auto simp: daysInMonth_def)
    then have "DaysInYear (YearFromTime t) = 366" by (simp add: InLeapYear_def split: if_splits)
    then have "DaysInYear ?y = 365" by (rule leap_next_common)
    then show ?thesis using True by (simp add: carried_def)
  next
    case False
    then show ?thesis by (auto simp: carried_def)
  qed
  show ?thesis
    unfolding isMidnightOf_def getFullYear_def getMonth_def getDate_def s
    using MakeDay_of_fields [of "DaysInYear ?y - 365" ?y t] c by simp
qed

section \<open>Days until the birthday and the date of the next one\<close>

lemma thisYearOccurrence_midnight: "\<exists>d. thisYearOccurrence now b = MakeDate d 0"
  by (simp add: thisYearOccurrence_def newDate_def Let_def)

lemma getDaysUntilBirthday_eq:
  "getDaysUntilBirthday now b =
     (if thisYearOccurrence now b < setHours0 now
      then Day (setFullYear (thisYearOccurrence now b) (getFullYear (setHours0 now) + 1))
           - Day (setHours0 now)
      else Day (thisYearOccurrence now b) - Day (setHours0 now))"
proof -
  obtain d where occ: "thisYearOccurrence now b = MakeDate d 0"
    using thisYearOccurrence_midnight by blast
  have today: "setHours0 now = MakeDate (Day now) 0" by (simp add: setHours0_def)
  let ?next = "setFullYear (thisYearOccurrence now b) (getFullYear (setHours0 now) + 1)"
  have nm: "?next = MakeDate (Day ?next) 0"
    by (simp add: occ setFullYear_midnight)
  show ?thesis
  proof (cases "thisYearOccurrence now b < setHours0 now")
    case True
    have "getDaysUntilBirthday now b = ceilDiv (?next - setHours0 now) msPerDay"
      using True by (simp add: getDaysUntilBirthday_def Let_def thisYearOccurrence_def)
    also have "\<dots> = Day ?next - Day (setHours0 now)"
      by (subst nm) (simp add: today)
    finally show ?thesis using True by simp
  next
    case False
    have "getDaysUntilBirthday now b
            = ceilDiv (thisYearOccurrence now b - setHours0 now) msPerDay"
      using False by (simp add: getDaysUntilBirthday_def Let_def thisYearOccurrence_def)
    also have "\<dots> = Day (thisYearOccurrence now b) - Day (setHours0 now)"
      by (simp add: occ today)
    finally show ?thesis using False by simp
  qed
qed

lemma getNextBirthdayDate_eq:
  "getNextBirthdayDate now b =
     (if thisYearOccurrence now b \<le> setHours0 now
      then setFullYear (thisYearOccurrence now b) (getFullYear (setHours0 now) + 1)
      else thisYearOccurrence now b)"
  by (simp add: getNextBirthdayDate_def Let_def thisYearOccurrence_def)

text \<open>
  In terms of the code's own intermediate values: \<open>getDaysUntilBirthday\<close> counts to this
  year's occurrence unless that lies before today's midnight, and \<open>getNextBirthdayDate\<close>
  keeps this year's occurrence only when it lies after today's midnight.
\<close>

lemma rollover_by_occurrence:
  "(thisYearOccurrence now b = setHours0 now \<longrightarrow>
      getDaysUntilBirthday now b = 0 \<and>
      getFullYear (getNextBirthdayDate now b) = getFullYear (setHours0 now) + 1) \<and>
   (setHours0 now \<le> thisYearOccurrence now b \<longrightarrow>
      getDaysUntilBirthday now b = Day (thisYearOccurrence now b) - Day (setHours0 now)) \<and>
   (thisYearOccurrence now b < setHours0 now \<longrightarrow>
      getDaysUntilBirthday now b
        = Day (setFullYear (thisYearOccurrence now b) (getFullYear (setHours0 now) + 1))
          - Day (setHours0 now) \<and>
      getFullYear (setFullYear (thisYearOccurrence now b) (getFullYear (setHours0 now) + 1))
        = getFullYear (setHours0 now) + 1) \<and>
   (setHours0 now < thisYearOccurrence now b \<longrightarrow>
      getNextBirthdayDate now b = thisYearOccurrence now b) \<and>
   (thisYearOccurrence now b \<le> setHours0 now \<longrightarrow>
      getNextBirthdayDate now b
        = setFullYear (thisYearOccurrence now b) (getFullYear (setHours0 now) + 1) \<and>
      getFullYear (getNextBirthdayDate now b) = getFullYear (setHours0 now) + 1) \<and>
   now < getNextBirthdayDate now b \<and>
   0 \<le> getDaysUntilBirthday now b"
proof -
  let ?occ = "thisYearOccurrence now b" and ?today = "setHours0 now"
  let ?next = "setFullYear ?occ (getFullYear ?today + 1)"
  obtain d where occ: "?occ = MakeDate d 0"
    using thisYearOccurrence_midnight by blast
  have today: "?today = MakeDate (Day now) 0" by (simp add: setHours0_def)
  have ny: "getFullYear ?next = getFullYear ?today + 1"
    by (simp add: getFullYear_def occ year_setFullYear)
  have nd: "Day now < Day ?next"
    using setFullYear_lower [of "YearFromTime now + 1" d] next_year_after [of now]
    by (simp add: occ getFullYear_def)
  have nm: "?next = MakeDate (Day ?next) 0"
    by (simp add: occ setFullYear_midnight)
  note du = getDaysUntilBirthday_eq [of now b]
  note gn = getNextBirthdayDate_eq [of now b]
  have fut: "now < getNextBirthdayDate now b"
  proof (cases "?occ \<le> ?today")
    case True
    have "now < MakeDate (Day ?next) 0" using nd by (rule now_before_next_midnight)
    then show ?thesis using True gn nm by simp
  next
    case False
    then have "Day now < d" by (simp add: occ today)
    then have "now < ?occ" unfolding occ by (rule now_before_next_midnight)
    then show ?thesis using False gn by simp
  qed
  have nonneg: "0 \<le> getDaysUntilBirthday now b"
    using du nd by (auto simp: occ today split: if_splits)
  show ?thesis
    using du gn ny fut nonneg by (auto simp: occ today)
qed

lemma midnight_eq: "TimeWithinDay t = 0 \<Longrightarrow> t = MakeDate (Day t) 0"
  using mult_div_mod_eq [of msPerDay t]
  by (simp add: TimeWithinDay_def Day_def MakeDate_def mult.commute)

lemma earlier_trichotomy:
  "(a = b \<or> earlier a b \<or> earlier b a) \<and> \<not> (a = b \<and> earlier a b) \<and>
   \<not> (a = b \<and> earlier b a) \<and> \<not> (earlier a b \<and> earlier b a)"
  by (cases a; cases b) (auto simp: earlier_def)

lemma occurrence_vs_today:
  assumes yr: "getFullYear now < 0 \<or> 99 < getFullYear now"
  shows "isMidnightOf (thisYearOccurrence now b) (getFullYear now) (birthdayIn (getFullYear now) b)"
    and "thisYearOccurrence now b < setHours0 now \<longleftrightarrow>
           earlier (birthdayIn (getFullYear now) b) (getMonth now, getDate now)"
    and "setHours0 now < thisYearOccurrence now b \<longleftrightarrow>
           earlier (getMonth now, getDate now) (birthdayIn (getFullYear now) b)"
    and "thisYearOccurrence now b = setHours0 now \<longleftrightarrow>
           birthdayIn (getFullYear now) b = (getMonth now, getDate now)"
proof -
  let ?occ = "thisYearOccurrence now b" and ?today = "setHours0 now"
  have y: "getFullYear ?today = getFullYear now" by (simp add: getFullYear_def)
  show f: "isMidnightOf ?occ (getFullYear now) (birthdayIn (getFullYear now) b)"
    using newDate_fields [OF yr, of b] by (simp add: thisYearOccurrence_def y)
  have today: "?today = MakeDate (Day now) 0" by (simp add: setHours0_def)
  have occ: "?occ = MakeDate (Day ?occ) 0"
    using f by (intro midnight_eq) (simp add: isMidnightOf_def)
  have sy: "YearFromTime ?occ = YearFromTime now"
    using f by (simp add: isMidnightOf_def getFullYear_def)
  have fo: "(MonthFromTime ?occ, DateFromTime ?occ) = birthdayIn (getFullYear now) b"
    using f by (simp add: isMidnightOf_def getMonth_def getDate_def)
  have lt: "?occ < ?today \<longleftrightarrow> Day ?occ < Day now"
    by (subst occ, subst today) simp
  have gt: "?today < ?occ \<longleftrightarrow> Day now < Day ?occ"
    by (subst occ, subst today) simp
  show 1: "?occ < ?today \<longleftrightarrow>
           earlier (birthdayIn (getFullYear now) b) (getMonth now, getDate now)"
    unfolding lt by (simp add: day_order [OF sy] fo getMonth_def getDate_def)
  show 2: "?today < ?occ \<longleftrightarrow>
           earlier (getMonth now, getDate now) (birthdayIn (getFullYear now) b)"
    unfolding gt by (simp add: day_order [OF sy [symmetric]] fo getMonth_def getDate_def)
  show "?occ = ?today \<longleftrightarrow> birthdayIn (getFullYear now) b = (getMonth now, getDate now)"
    using 1 2 earlier_trichotomy [of "birthdayIn (getFullYear now) b" "(getMonth now, getDate now)"]
    by (metis linorder_less_linear order_less_irrefl)
qed

text \<open>
  C7. Let the current year be outside 0..99 (where \<open>new Date\<close> reads a year as it is).
  When the birthday falls today, whatever the time of day, \<open>getDaysUntilBirthday\<close> is 0
  and \<open>getNextBirthdayDate\<close> is the midnight of the birthday in the next year. When the
  birthday falls later in the current year, \<open>getNextBirthdayDate\<close> is its midnight in the
  current year; when it falls earlier in the year, its midnight in the next year (a 29
  February moved from a leap year becoming 1 March). Unless the birthday falls today,
  \<open>getDaysUntilBirthday\<close> is positive and counts the calendar days from today to
  \<open>getNextBirthdayDate\<close>: it is their number or one more (their number wherever the days in
  between have 24 hours, as they all have here: \<open>getDaysUntilBirthday_eq\<close>). So it rolls to
  the next year only when this year's occurrence is before today, while
  \<open>getNextBirthdayDate\<close> rolls also when it is today, and is always after the current time.
\<close>

theorem birthday_rollover:
  assumes yr: "getFullYear now < 0 \<or> 99 < getFullYear now"
  shows
    "(birthdayIn (getFullYear now) b = (getMonth now, getDate now) \<longrightarrow>
        getDaysUntilBirthday now b = 0 \<and>
        isMidnightOf (getNextBirthdayDate now b) (getFullYear now + 1)
          (carried (birthdayIn (getFullYear now) b))) \<and>
     (earlier (getMonth now, getDate now) (birthdayIn (getFullYear now) b) \<longrightarrow>
        isMidnightOf (getNextBirthdayDate now b) (getFullYear now)
          (birthdayIn (getFullYear now) b)) \<and>
     (earlier (birthdayIn (getFullYear now) b) (getMonth now, getDate now) \<longrightarrow>
        isMidnightOf (getNextBirthdayDate now b) (getFullYear now + 1)
          (carried (birthdayIn (getFullYear now) b))) \<and>
     (birthdayIn (getFullYear now) b \<noteq> (getMonth now, getDate now) \<longrightarrow>
        0 < getDaysUntilBirthday now b \<and>
        Day (getNextBirthdayDate now b) - Day now \<le> getDaysUntilBirthday now b \<and>
        getDaysUntilBirthday now b \<le> Day (getNextBirthdayDate now b) - Day now + 1) \<and>
     now < getNextBirthdayDate now b"
proof -
  let ?occ = "thisYearOccurrence now b" and ?today = "setHours0 now"
  let ?Y = "getFullYear now" and ?td = "(getMonth now, getDate now)"
  let ?next = "setFullYear ?occ (?Y + 1)"
  note ov = occurrence_vs_today [OF yr, of b]
  have y: "getFullYear ?today = ?Y" by (simp add: getFullYear_def)
  have dt: "Day ?today = Day now" by (simp add: setHours0_def)
  have om: "TimeWithinDay ?occ = 0" "getFullYear ?occ = ?Y"
    "(getMonth ?occ, getDate ?occ) = birthdayIn ?Y b"
    using ov(1) by (simp_all add: isMidnightOf_def)
  have rolled: "isMidnightOf ?next (?Y + 1) (carried (birthdayIn ?Y b))"
    using setFullYear_fields [OF om(1)] by (simp add: om)
  note gn = getNextBirthdayDate_eq [of now b, unfolded y]
  note du = getDaysUntilBirthday_eq [of now b, unfolded y dt]
  note old = rollover_by_occurrence [of now b]
  have fut: "now < getNextBirthdayDate now b" using old by blast
  have dn: "Day now < Day (getNextBirthdayDate now b)"
  proof -
    have "TimeWithinDay (getNextBirthdayDate now b) = 0"
      using gn rolled om(1) by (auto simp: isMidnightOf_def)
    then have "getNextBirthdayDate now b = MakeDate (Day (getNextBirthdayDate now b)) 0"
      by (rule midnight_eq)
    moreover have "MakeDate (Day now) 0 \<le> now"
    proof -
      have "now = (now div msPerDay) * msPerDay + now mod msPerDay" by simp
      moreover have "0 \<le> now mod msPerDay" using msPerDay_pos by simp
      ultimately show ?thesis unfolding MakeDate_def Day_def by linarith
    qed
    ultimately have "MakeDate (Day now) 0 < MakeDate (Day (getNextBirthdayDate now b)) 0"
      using fut by simp
    then show ?thesis by simp
  qed
  have c1: "getDaysUntilBirthday now b = 0 \<and> isMidnightOf (getNextBirthdayDate now b) (?Y + 1)
              (carried (birthdayIn ?Y b))" if "birthdayIn ?Y b = ?td"
  proof -
    from that have e: "?occ = ?today" using ov(4) by simp
    then show ?thesis using du gn rolled dt by simp
  qed
  have c2: "isMidnightOf (getNextBirthdayDate now b) ?Y (birthdayIn ?Y b)"
    if "earlier ?td (birthdayIn ?Y b)"
  proof -
    from that have "?today < ?occ" using ov(3) by simp
    then show ?thesis using gn ov(1) by simp
  qed
  have c3: "isMidnightOf (getNextBirthdayDate now b) (?Y + 1) (carried (birthdayIn ?Y b))"
    if "earlier (birthdayIn ?Y b) ?td"
  proof -
    from that have "?occ < ?today" using ov(2) by simp
    then show ?thesis using gn rolled by simp
  qed
  have c4: "getDaysUntilBirthday now b = Day (getNextBirthdayDate now b) - Day now"
    if "birthdayIn ?Y b \<noteq> ?td"
  proof -
    from that have "?occ \<noteq> ?today" using ov(4) by simp
    then show ?thesis using du gn by auto
  qed
  show ?thesis using c1 c2 c3 c4 dn fut by auto
qed

text \<open>
  At nine o'clock on the first of June 2024: a birthday on 1 June (today), on 2 June (later)
  and on 31 May (earlier).
\<close>

theorem birthday_rollover_witness:
  "(getFullYear june1_9am < 0 \<or> 99 < getFullYear june1_9am) \<and>
   (birthdayIn (getFullYear june1_9am) (newDate 1990 5 1) = (getMonth june1_9am, getDate june1_9am) \<and>
    getDaysUntilBirthday june1_9am (newDate 1990 5 1) = 0 \<and>
    isMidnightOf (getNextBirthdayDate june1_9am (newDate 1990 5 1)) (getFullYear june1_9am + 1)
      (carried (birthdayIn (getFullYear june1_9am) (newDate 1990 5 1)))) \<and>
   (earlier (getMonth june1_9am, getDate june1_9am) (birthdayIn (getFullYear june1_9am) (newDate 1985 5 2)) \<and>
    birthdayIn (getFullYear june1_9am) (newDate 1985 5 2) \<noteq> (getMonth june1_9am, getDate june1_9am) \<and>
    isMidnightOf (getNextBirthdayDate june1_9am (newDate 1985 5 2)) (getFullYear june1_9am)
      (birthdayIn (getFullYear june1_9am) (newDate 1985 5 2)) \<and>
    0 < getDaysUntilBirthday june1_9am (newDate 1985 5 2)) \<and>
   (earlier (birthdayIn (getFullYear june1_9am) (newDate 1990 4 31)) (getMonth june1_9am, getDate june1_9am) \<and>
    isMidnightOf (getNextBirthdayDate june1_9am (newDate 1990 4 31)) (getFullYear june1_9am + 1)
      (carried (birthdayIn (getFullYear june1_9am) (newDate 1990 4 31)))) \<and>
   june1_9am < getNextBirthdayDate june1_9am (newDate 1990 5 1)"
proof -
  have yr: "getFullYear june1_9am < 0 \<or> 99 < getFullYear june1_9am"
    by code_simp
  have a: "birthdayIn (getFullYear june1_9am) (newDate 1990 5 1)
             = (getMonth june1_9am, getDate june1_9am)"
    by code_simp
  have b: "earlier (getMonth june1_9am, getDate june1_9am)
             (birthdayIn (getFullYear june1_9am) (newDate 1985 5 2))"
    "birthdayIn (getFullYear june1_9am) (newDate 1985 5 2) \<noteq> (getMonth june1_9am, getDate june1_9am)"
    by code_simp+
  have c: "earlier (birthdayIn (getFullYear june1_9am) (newDate 1990 4 31))
             (getMonth june1_9am, getDate june1_9am)"
    by code_simp
  from birthday_rollover [OF yr, of "newDate 1990 5 1"] a
  have A: "getDaysUntilBirthday june1_9am (newDate 1990 5 1) = 0 \<and>
    isMidnightOf (getNextBirthdayDate june1_9am (newDate 1990 5 1)) (getFullYear june1_9am + 1)
      (carried (birthdayIn (getFullYear june1_9am) (newDate 1990 5 1))) \<and>
    june1_9am < getNextBirthdayDate june1_9am (newDate 1990 5 1)"
    by blast
  from birthday_rollover [OF yr, of "newDate 1985 5 2"] b
  have B: "isMidnightOf (getNextBirthdayDate june1_9am (newDate 1985 5 2)) (getFullYear june1_9am)
      (birthdayIn (getFullYear june1_9am) (newDate 1985 5 2)) \<and>
    0 < getDaysUntilBirthday june1_9am (newDate 1985 5 2)"
    by blast
  from birthday_rollover [OF yr, of "newDate 1990 4 31"] c
  have C: "isMidnightOf (getNextBirthdayDate june1_9am (newDate 1990 4 31)) (getFullYear june1_9am + 1)
      (carried (birthdayIn (getFullYear june1_9am) (newDate 1990 4 31)))"
    by blast
  from yr a b c A B C show ?thesis by blast
qed

lemma nine_oclock_example:
  "getFullYear june1_9am = 2024" "getMonth june1_9am = 5" "getDate june1_9am = 1"
  "TimeWithinDay june1_9am = 32400000"
  "birthdayIn 2024 (newDate 1990 5 1) = (5, 1)"
  "birthdayIn 2024 (newDate 1985 5 2) = (5, 2)"
  "birthdayIn 2024 (newDate 1990 4 31) = (4, 31)"
  "getDaysUntilBirthday june1_9am (newDate 1990 5 1) = 0"
  "getNextBirthdayDate june1_9am (newDate 1990 5 1) = newDate 2025 5 1"
  "getDaysUntilBirthday june1_9am (newDate 1985 5 2) = 1"
  "getNextBirthdayDate june1_9am (newDate 1985 5 2) = newDate 2024 5 2"
  "getDaysUntilBirthday june1_9am (newDate 1990 4 31) = 364"
  "getNextBirthdayDate june1_9am (newDate 1990 4 31) = newDate 2025 4 31"
  by code_simp+

text \<open>
  A birthday on 29 February: on 2023-03-05 its occurrence of the year was 1 March, and the
  next date is 2024-03-01, 362 days away; on 2024-03-05 the next date is 2025-03-01.
\<close>

lemma leap_day_example:
  "birthdayIn 2023 (newDate 2000 1 29) = (2, 1)"
  "getNextBirthdayDate (newDate 2023 2 5) (newDate 2000 1 29) = newDate 2024 2 1"
  "getDaysUntilBirthday (newDate 2023 2 5) (newDate 2000 1 29) = 362"
  "getNextBirthdayDate (newDate 2024 2 5) (newDate 2000 1 29) = newDate 2025 2 1"
  by code_simp+

text \<open>
  On the first of June 2024: a birthday on 1 June is 0 days away and its next date is
  2025-06-01; a birthday on 2 June is 1 day away; a birthday on 31 May is 364 days away.
\<close>

lemma rollover_example:
  "getDaysUntilBirthday june1 (newDate 1990 5 1) = 0"
  "getNextBirthdayDate june1 (newDate 1990 5 1) = newDate 2025 5 1"
  "getDaysUntilBirthday june1 (newDate 1985 5 2) = 1"
  "getNextBirthdayDate june1 (newDate 1985 5 2) = newDate 2024 5 2"
  "getDaysUntilBirthday june1 (newDate 1990 4 31) = 364"
  by code_simp+

section \<open>The task of the next year\<close>

text \<open>
  The date of the next task: in the year after the current one, on the birthday's month and
  day (a birthday on 29 February apart, which \<open>new Date\<close> moves to 1 March in a common year).
\<close>

lemma nextYearBirthday_fields:
  assumes "\<not> (getMonth b = 1 \<and> getDate b = 29)"
    and "getFullYear now + 1 < 0 \<or> 99 < getFullYear now + 1"
  shows "getFullYear (nextYearBirthday now b) = getFullYear now + 1 \<and>
         getMonth (nextYearBirthday now b) = getMonth b \<and>
         getDate (nextYearBirthday now b) = getDate b \<and>
         (getFullYear D = getFullYear now \<and> getMonth D = getMonth b \<and> getDate D = getDate b \<longrightarrow>
            getFullYear (nextYearBirthday now b) = getFullYear D + 1 \<and>
            getMonth (nextYearBirthday now b) = getMonth D \<and>
            getDate (nextYearBirthday now b) = getDate D)"
proof -
  let ?y = "getFullYear now + 1"
  let ?l = "DaysInYear ?y - 365"
  have n: "nextYearBirthday now b = MakeDate (MakeDay ?y (MonthFromTime b) (DateFromTime b)) 0"
    using assms(2)
    by (auto simp: nextYearBirthday_def newDate_def Let_def getFullYear_def getMonth_def
        getDate_def)
  have l: "0 \<le> ?l" using DaysInYear_cases [of ?y] by auto
  have d: "DateFromTime b \<le> daysInMonth ?l (MonthFromTime b)"
    using not_feb29 [of b ?l] assms(1) l by (simp add: getMonth_def getDate_def)
  from fields_MakeDay [of "MonthFromTime b" "DateFromTime b" ?y] fields_table [of b] d
  show ?thesis by (simp add: n getFullYear_def getMonth_def getDate_def)
qed

text \<open>
  The name of a journal page: the year in digits without a leading zero, the month and the
  day in two digits each.
\<close>

lemma parseInt_snoc: "parseInt (xs @ [c]) = 10 * parseInt xs + (int c - 48)"
  by (simp add: parseInt_def)

lemma parseInt_zero: "parseInt (48 # xs) = parseInt xs"
  by (simp add: parseInt_def)

lemma natDigits_props:
  "list_all isDigit (natDigits n) \<and> natDigits n \<noteq> [] \<and> parseInt (natDigits n) = int n"
proof (induction n rule: natDigits.induct)
  case (1 n)
  show ?case
  proof (cases "n < 10")
    case True
    then show ?thesis
      by (subst (1 2 3) natDigits.simps) (simp add: isDigit_def parseInt_def)
  next
    case False
    have m: "isDigit (48 + n mod 10)"
    proof -
      have "n mod 10 < 10" by simp
      then show ?thesis unfolding isDigit_def by linarith
    qed
    have e: "int n = 10 * int (n div 10) + int (n mod 10)"
      by (metis mult_div_mod_eq of_nat_add of_nat_mult of_nat_numeral)
    from "1.IH" [OF False] False m e show ?thesis
      by (subst (1 2 3) natDigits.simps) (simp add: parseInt_snoc)
  qed
qed

lemma natDigits_length:
  "n < 10 \<Longrightarrow> length (natDigits n) = 1"
  "10 \<le> n \<Longrightarrow> n < 100 \<Longrightarrow> length (natDigits n) = 2"
proof -
  show 1: "length (natDigits n) = 1" if "n < 10" for n
    using that by (subst natDigits.simps) simp
  assume "10 \<le> n" "n < 100"
  then have "n div 10 < 10" by simp
  from 1 [OF this] \<open>10 \<le> n\<close> show "length (natDigits n) = 2"
    by (subst natDigits.simps) simp
qed

lemma two_digits:
  assumes "0 \<le> i" "i < 100"
  shows "digits 2 2 (padStart2 (numberToString i)) \<and> parseInt (padStart2 (numberToString i)) = i"
proof (cases "i < 10")
  case True
  then have "length (natDigits (nat i)) = 1" using assms by (intro natDigits_length) simp
  then show ?thesis
    using natDigits_props [of "nat i"] assms
    by (simp add: padStart2_def numberToString_def digits_def isDigit_def parseInt_zero)
next
  case False
  then have "length (natDigits (nat i)) = 2" using assms by (intro natDigits_length) simp_all
  then show ?thesis
    using natDigits_props [of "nat i"] assms
    by (simp add: padStart2_def numberToString_def digits_def)
qed

lemma natDigits_no_leading_zero: "0 < n \<Longrightarrow> hd (natDigits n) \<noteq> 48"
proof (induction n rule: natDigits.induct)
  case (1 n)
  show ?case
  proof (cases "n < 10")
    case True
    then show ?thesis using "1.prems" by (subst natDigits.simps) simp
  next
    case False
    then have "0 < n div 10" by simp
    from "1.IH" [OF False this] natDigits_props [of "n div 10"] False show ?thesis
      by (subst natDigits.simps) simp
  qed
qed

lemma formatDateForLogseq_year:
  assumes "0 < getFullYear t"
  shows "\<exists>ys ms ds. formatDateForLogseq t = ys @ js ''-'' @ ms @ js ''-'' @ ds \<and>
           list_all isDigit ys \<and> ys \<noteq> [] \<and> hd ys \<noteq> 48 \<and> parseInt ys = getFullYear t \<and>
           digits 2 2 ms \<and> parseInt ms = getMonth t + 1 \<and>
           digits 2 2 ds \<and> parseInt ds = getDate t"
proof -
  have m: "0 \<le> getMonth t + 1" "getMonth t + 1 < 100" "0 \<le> getDate t" "getDate t < 100"
    using fields_table [of t] date_le_31 [of t] by (simp_all add: getMonth_def getDate_def)
  have z: "hd (natDigits (nat (getFullYear t))) \<noteq> 48"
    using assms by (intro natDigits_no_leading_zero) simp
  show ?thesis
    using natDigits_props [of "nat (getFullYear t)"] assms z two_digits [OF m(1,2)]
      two_digits [OF m(3,4)]
    by (intro exI [of _ "numberToString (getFullYear t)"]
        exI [of _ "padStart2 (numberToString (getMonth t + 1))"]
        exI [of _ "padStart2 (numberToString (getDate t))"])
      (simp add: formatDateForLogseq_def Let_def numberToString_def)
qed

lemma handle_page_found:
  assumes "resolveBirthday personName tr = (Inr (Some b), tr')"
    and "J = formatDateForLogseq (nextYearBirthday now b)"
    and "content = js ''[['' @ personName @ js '']]'' @ [39] @ js ''s Birthday!''"
    and "h tr' (GetPage J) = Returns (Some u)"
    and "h (tr' @ [GetPage J]) (AppendBlockInPage u content) = Returns (Some blk)"
  shows "snd (handleBirthdayTaskCompleted h resolveBirthday now personName tr)
           = tr' @ [GetPage J, AppendBlockInPage u content, AddBlockTag blk TASK_TAG_UUID]"
  using assms
  by (simp add: handleBirthdayTaskCompleted_def catchIO_def bindIO_def perform_def returnIO_def
      Let_def split: reply.splits)

lemma handle_page_created:
  assumes "resolveBirthday personName tr = (Inr (Some b), tr')"
    and "J = formatDateForLogseq (nextYearBirthday now b)"
    and "content = js ''[['' @ personName @ js '']]'' @ [39] @ js ''s Birthday!''"
    and "h tr' (GetPage J) = Returns None"
    and "h (tr' @ [GetPage J]) (CreatePage J True) = Returns (Some u)"
    and "h (tr' @ [GetPage J, CreatePage J True]) (AppendBlockInPage u content)
           = Returns (Some blk)"
  shows "snd (handleBirthdayTaskCompleted h resolveBirthday now personName tr)
           = tr' @ [GetPage J, CreatePage J True, AppendBlockInPage u content,
                    AddBlockTag blk TASK_TAG_UUID]"
  using assms
  by (simp add: handleBirthdayTaskCompleted_def catchIO_def bindIO_def perform_def returnIO_def
      Let_def split: reply.splits)

lemma handle_unresolved:
  assumes "resolveBirthday personName tr = (Inr None, tr') \<or>
           resolveBirthday personName tr = (Inl e, tr')"
  shows "snd (handleBirthdayTaskCompleted h resolveBirthday now personName tr) = tr'"
  using assms
  by (auto simp: handleBirthdayTaskCompleted_def catchIO_def bindIO_def returnIO_def)

text \<open>
  C1, as the code has it. Let the handler have resolved the person's birthday \<open>b\<close> (not a 29
  February), in a current year from 99 on. The journal page \<open>J\<close> that it asks for is named
  by the year after the current year and by the month and day of \<open>b\<close>; so it is the page
  of the day one year after the completed occurrence \<open>D\<close> when the completion is processed
  within the calendar year of \<open>D\<close>. When the host returns that page, or has none and creates
  it, and returns the new block, the calls of the handler are exactly: the lookup of \<open>J\<close>,
  the creation of \<open>J\<close> as a journal page if it was missing, the task block with the
  person's name appended to that page, and the task tag on the block.
\<close>

theorem handleBirthdayTaskCompleted_schedules:
  assumes res: "resolveBirthday personName tr = (Inr (Some b), tr')"
    and nf: "\<not> (getMonth b = 1 \<and> getDate b = 29)"
    and yr: "99 < getFullYear now + 1"
    and J: "J = formatDateForLogseq (nextYearBirthday now b)"
    and c: "content = js ''[['' @ personName @ js '']]'' @ [39] @ js ''s Birthday!''"
  shows
    "(\<exists>ys ms ds. J = ys @ js ''-'' @ ms @ js ''-'' @ ds \<and>
        list_all isDigit ys \<and> ys \<noteq> [] \<and> hd ys \<noteq> 48 \<and> digits 2 2 ms \<and> digits 2 2 ds \<and>
        parseInt ys = getFullYear now + 1 \<and> parseInt ms = getMonth b + 1 \<and>
        parseInt ds = getDate b \<and>
        (getFullYear D = getFullYear now \<and> getMonth D = getMonth b \<and> getDate D = getDate b \<longrightarrow>
           parseInt ys = getFullYear D + 1 \<and> parseInt ms = getMonth D + 1 \<and>
           parseInt ds = getDate D)) \<and>
     (h tr' (GetPage J) = Returns (Some u) \<and>
      h (tr' @ [GetPage J]) (AppendBlockInPage u content) = Returns (Some blk) \<longrightarrow>
        snd (handleBirthdayTaskCompleted h resolveBirthday now personName tr)
          = tr' @ [GetPage J, AppendBlockInPage u content, AddBlockTag blk TASK_TAG_UUID]) \<and>
     (h tr' (GetPage J) = Returns None \<and>
      h (tr' @ [GetPage J]) (CreatePage J True) = Returns (Some u) \<and>
      h (tr' @ [GetPage J, CreatePage J True]) (AppendBlockInPage u content)
        = Returns (Some blk) \<longrightarrow>
        snd (handleBirthdayTaskCompleted h resolveBirthday now personName tr)
          = tr' @ [GetPage J, CreatePage J True, AppendBlockInPage u content,
                   AddBlockTag blk TASK_TAG_UUID])"
proof (intro conjI impI)
  have f: "getFullYear (nextYearBirthday now b) = getFullYear now + 1"
    "getMonth (nextYearBirthday now b) = getMonth b"
    "getDate (nextYearBirthday now b) = getDate b"
    using nextYearBirthday_fields [OF nf, of now] yr by simp_all
  have "0 < getFullYear (nextYearBirthday now b)" using f yr by simp
  from formatDateForLogseq_year [OF this]
  obtain ys ms ds where s: "J = ys @ js ''-'' @ ms @ js ''-'' @ ds"
    "list_all isDigit ys" "ys \<noteq> []" "hd ys \<noteq> 48" "digits 2 2 ms" "digits 2 2 ds"
    "parseInt ys = getFullYear now + 1" "parseInt ms = getMonth b + 1"
    "parseInt ds = getDate b"
    unfolding J f by blast
  show "\<exists>ys ms ds. J = ys @ js ''-'' @ ms @ js ''-'' @ ds \<and>
        list_all isDigit ys \<and> ys \<noteq> [] \<and> hd ys \<noteq> 48 \<and> digits 2 2 ms \<and> digits 2 2 ds \<and>
        parseInt ys = getFullYear now + 1 \<and> parseInt ms = getMonth b + 1 \<and>
        parseInt ds = getDate b \<and>
        (getFullYear D = getFullYear now \<and> getMonth D = getMonth b \<and> getDate D = getDate b \<longrightarrow>
           parseInt ys = getFullYear D + 1 \<and> parseInt ms = getMonth D + 1 \<and>
           parseInt ds = getDate D)"
    by (intro exI [of _ ys] exI [of _ ms] exI [of _ ds]) (simp add: s)
next
  assume "h tr' (GetPage J) = Returns (Some u) \<and>
      h (tr' @ [GetPage J]) (AppendBlockInPage u content) = Returns (Some blk)"
  then show "snd (handleBirthdayTaskCompleted h resolveBirthday now personName tr)
          = tr' @ [GetPage J, AppendBlockInPage u content, AddBlockTag blk TASK_TAG_UUID]"
    using handle_page_found [where h = h and u = u and blk = blk and resolveBirthday = resolveBirthday
        and personName = personName and tr = tr and b = b and tr' = tr' and J = J
        and now = now and content = content] res J c
    by blast
next
  assume "h tr' (GetPage J) = Returns None \<and>
      h (tr' @ [GetPage J]) (CreatePage J True) = Returns (Some u) \<and>
      h (tr' @ [GetPage J, CreatePage J True]) (AppendBlockInPage u content)
        = Returns (Some blk)"
  then show "snd (handleBirthdayTaskCompleted h resolveBirthday now personName tr)
          = tr' @ [GetPage J, CreatePage J True, AppendBlockInPage u content,
                   AddBlockTag blk TASK_TAG_UUID]"
    using handle_page_created [where h = h and u = u and blk = blk and resolveBirthday = resolveBirthday
        and personName = personName and tr = tr and b = b and tr' = tr' and J = J
        and now = now and content = content] res J c
    by blast
qed

text \<open>
  Completed on 2024-12-20, the task of 2024-12-31 for a birthday on 1990-12-31 is followed by
  the task on the journal page 2025-12-31, on a host that has the page and on one that
  creates it.
\<close>

lemma in_time_completion:
  "nextYearBirthday (newDate 2024 11 20) (newDate 1990 11 31) = newDate 2025 11 31"
  "getFullYear (newDate 2025 11 31) = 2025" "getMonth (newDate 2025 11 31) = 11"
  "getDate (newDate 2025 11 31) = 31"
  "\<not> (getMonth (newDate 1990 11 31) = 1 \<and> getDate (newDate 1990 11 31) = 29)"
  "99 < getFullYear (newDate 2024 11 20) + 1"
  "getFullYear (newDate 2024 11 31) = getFullYear (newDate 2024 11 20)"
  "getMonth (newDate 2024 11 31) = getMonth (newDate 1990 11 31)"
  "getDate (newDate 2024 11 31) = getDate (newDate 1990 11 31)"
  "getFullYear (newDate 2024 11 31) + 1 = 2025" "getMonth (newDate 2024 11 31) + 1 = 12"
  "getDate (newDate 2024 11 31) = 31"
  by code_simp+

lemma format_2025:
  "js ''2025-12-31'' = formatDateForLogseq (nextYearBirthday (newDate 2024 11 20) (newDate 1990 11 31))"
  by (simp add: formatDateForLogseq_def in_time_completion numberToString_def padStart2_def
      natDigits.simps js_def)

theorem handleBirthdayTaskCompleted_schedules_witness:
  "resolvesTo (newDate 1990 11 31) (js ''Alice'') [] = (Inr (Some (newDate 1990 11 31)), []) \<and>
   \<not> (getMonth (newDate 1990 11 31) = 1 \<and> getDate (newDate 1990 11 31) = 29) \<and>
   99 < getFullYear (newDate 2024 11 20) + 1 \<and>
   js ''2025-12-31''
     = formatDateForLogseq (nextYearBirthday (newDate 2024 11 20) (newDate 1990 11 31)) \<and>
   everyPageExists [] (GetPage (js ''2025-12-31'')) = Returns (Some (js ''j1'')) \<and>
   everyPageExists ([] @ [GetPage (js ''2025-12-31'')])
     (AppendBlockInPage (js ''j1'') (js ''[['' @ js ''Alice'' @ js '']]'' @ [39] @ js ''s Birthday!''))
     = Returns (Some (js ''block'')) \<and>
   snd (handleBirthdayTaskCompleted everyPageExists (resolvesTo (newDate 1990 11 31))
          (newDate 2024 11 20) (js ''Alice'') [])
     = [] @ [GetPage (js ''2025-12-31''),
             AppendBlockInPage (js ''j1'')
               (js ''[['' @ js ''Alice'' @ js '']]'' @ [39] @ js ''s Birthday!''),
             AddBlockTag (js ''block'') TASK_TAG_UUID] \<and>
   aliceExists [] (GetPage (js ''2025-12-31'')) = Returns None \<and>
   aliceExists ([] @ [GetPage (js ''2025-12-31'')]) (CreatePage (js ''2025-12-31'') True)
     = Returns (Some (js ''page:2025-12-31'')) \<and>
   aliceExists ([] @ [GetPage (js ''2025-12-31''), CreatePage (js ''2025-12-31'') True])
     (AppendBlockInPage (js ''page:2025-12-31'')
        (js ''[['' @ js ''Alice'' @ js '']]'' @ [39] @ js ''s Birthday!''))
     = Returns (Some (js ''block'')) \<and>
   snd (handleBirthdayTaskCompleted aliceExists (resolvesTo (newDate 1990 11 31))
          (newDate 2024 11 20) (js ''Alice'') [])
     = [] @ [GetPage (js ''2025-12-31''), CreatePage (js ''2025-12-31'') True,
             AppendBlockInPage (js ''page:2025-12-31'')
               (js ''[['' @ js ''Alice'' @ js '']]'' @ [39] @ js ''s Birthday!''),
             AddBlockTag (js ''block'') TASK_TAG_UUID]"
proof -
  let ?b = "newDate 1990 11 31" and ?now = "newDate 2024 11 20" and ?J = "js ''2025-12-31''"
  let ?c = "js ''[['' @ js ''Alice'' @ js '']]'' @ [39] @ js ''s Birthday!''"
  have res: "resolvesTo ?b (js ''Alice'') [] = (Inr (Some ?b), [])"
    by (simp add: resolvesTo_def returnIO_def)
  note nf = in_time_completion(5) and yr = in_time_completion(6) and J = format_2025
  have c: "?c = js ''[['' @ js ''Alice'' @ js '']]'' @ [39] @ js ''s Birthday!''" by simp
  have e: "everyPageExists [] (GetPage ?J) = Returns (Some (js ''j1''))"
    "everyPageExists ([] @ [GetPage ?J]) (AppendBlockInPage (js ''j1'') ?c)
       = Returns (Some (js ''block''))"
    by (simp_all add: everyPageExists_def)
  have a: "aliceExists [] (GetPage ?J) = Returns None"
    "aliceExists ([] @ [GetPage ?J]) (CreatePage ?J True) = Returns (Some (js ''page:2025-12-31''))"
    "aliceExists ([] @ [GetPage ?J, CreatePage ?J True])
       (AppendBlockInPage (js ''page:2025-12-31'') ?c) = Returns (Some (js ''block''))"
    by (simp_all add: aliceExists_def js_def)
  from handleBirthdayTaskCompleted_schedules
         [where resolveBirthday = "resolvesTo ?b" and personName = "js ''Alice''" and tr = "[]"
            and tr' = "[]" and b = ?b and now = ?now and J = ?J and content = ?c
            and h = everyPageExists and u = "js ''j1''" and blk = "js ''block''",
          OF res nf yr J c] e
  have E: "snd (handleBirthdayTaskCompleted everyPageExists (resolvesTo ?b) ?now (js ''Alice'') [])
     = [] @ [GetPage ?J, AppendBlockInPage (js ''j1'') ?c, AddBlockTag (js ''block'') TASK_TAG_UUID]"
    by blast
  from handleBirthdayTaskCompleted_schedules
         [where resolveBirthday = "resolvesTo ?b" and personName = "js ''Alice''" and tr = "[]"
            and tr' = "[]" and b = ?b and now = ?now and J = ?J and content = ?c
            and h = aliceExists and u = "js ''page:2025-12-31''" and blk = "js ''block''",
          OF res nf yr J c] a
  have A: "snd (handleBirthdayTaskCompleted aliceExists (resolvesTo ?b) ?now (js ''Alice'') [])
     = [] @ [GetPage ?J, CreatePage ?J True, AppendBlockInPage (js ''page:2025-12-31'') ?c,
             AddBlockTag (js ''block'') TASK_TAG_UUID]"
    by blast
  from res nf yr J e a E A show ?thesis by blast
qed

lemma late_completion:
  "nextYearBirthday (newDate 2025 0 2) (newDate 1990 11 31) = newDate 2026 11 31"
  "getMonth (newDate 2024 11 31) = getMonth (newDate 1990 11 31)"
  "getDate (newDate 2024 11 31) = getDate (newDate 1990 11 31)"
  "getFullYear (newDate 2026 11 31) \<noteq> getFullYear (newDate 2024 11 31) + 1"
  by code_simp+

lemma handle_asks_page:
  assumes "resolveBirthday personName tr = (Inr (Some bd), tr')"
  shows "\<exists>rest. snd (handleBirthdayTaskCompleted h resolveBirthday now personName tr)
           = tr' @ GetPage (formatDateForLogseq (nextYearBirthday now bd)) # rest"
  using assms
  by (auto simp: handleBirthdayTaskCompleted_def catchIO_def bindIO_def perform_def returnIO_def
      Let_def split: reply.splits option.splits prod.splits sum.splits)

lemma fields_2026:
  "getFullYear (newDate 2026 11 31) = 2026" "getMonth (newDate 2026 11 31) = 11"
  "getDate (newDate 2026 11 31) = 31"
  by code_simp+

lemma format_2026: "formatDateForLogseq (newDate 2026 11 31) = js ''2026-12-31''"
  by (simp add: formatDateForLogseq_def fields_2026 numberToString_def padStart2_def
      natDigits.simps js_def)

lemma handle_late:
  "snd (handleBirthdayTaskCompleted aliceExists (resolvesTo (newDate 1990 11 31))
          (newDate 2025 0 2) (js ''Alice'') [])
     = [GetPage (js ''2026-12-31''), CreatePage (js ''2026-12-31'') True,
        AppendBlockInPage (js ''page:2026-12-31'') (js ''[[Alice]]'' @ [39] @ js ''s Birthday!''),
        AddBlockTag (js ''block'') TASK_TAG_UUID]"
  by (simp add: handleBirthdayTaskCompleted_def resolvesTo_def late_completion(1) format_2026
      catchIO_def bindIO_def perform_def returnIO_def aliceExists_def Let_def js_def)

text \<open>
  C1, as the claim states it, fails when the completion is processed late: the task of
  2024-12-31 for a birthday on 1990-12-31, completed on 2025-01-02, is followed by a task on
  the journal page of 2026-12-31, two years after the completed occurrence.
\<close>

theorem nextYearBirthday_late_counterexample:
  "getMonth (newDate 2024 11 31) = getMonth (newDate 1990 11 31) \<and>
   getDate (newDate 2024 11 31) = getDate (newDate 1990 11 31) \<and>
   nextYearBirthday (newDate 2025 0 2) (newDate 1990 11 31) = newDate 2026 11 31 \<and>
   getFullYear (nextYearBirthday (newDate 2025 0 2) (newDate 1990 11 31))
     \<noteq> getFullYear (newDate 2024 11 31) + 1 \<and>
   snd (handleBirthdayTaskCompleted aliceExists (resolvesTo (newDate 1990 11 31))
          (newDate 2025 0 2) (js ''Alice'') [])
     = [GetPage (js ''2026-12-31''), CreatePage (js ''2026-12-31'') True,
        AppendBlockInPage (js ''page:2026-12-31'') (js ''[[Alice]]'' @ [39] @ js ''s Birthday!''),
        AddBlockTag (js ''block'') TASK_TAG_UUID]"
  using late_completion handle_late by simp

section \<open>Properties of the parser\<close>

lemma digit_not_space: "isDigit c \<Longrightarrow> \<not> isSpace c"
  by (auto simp: isDigit_def isSpace_def)

lemma trim_id:
  assumes "s \<noteq> []" "\<not> isSpace (hd s)" "\<not> isSpace (last s)"
  shows "trim s = s"
proof -
  have "dropWhile isSpace s = s" using assms by (cases s) simp_all
  moreover have "dropWhile isSpace (rev s) = rev s"
    using assms by (cases "rev s") (simp_all add: last_rev [symmetric] del: last_rev)
  ultimately show ?thesis by (simp add: trim_def)
qed

lemma run_then_stop:
  assumes "list_all P a" "\<not> P c"
  shows "takeWhile P (a @ c # r) = a" "dropWhile P (a @ c # r) = c # r"
  using assms by (induction a) simp_all

lemma run_to_end:
  assumes "list_all P a"
  shows "takeWhile P a = a" "dropWhile P a = []"
  using assms by (induction a) simp_all

lemma sep_not_digit: "c \<in> set (js ''/-.'') \<Longrightarrow> \<not> isDigit c"
  by (auto simp: js_def isDigit_def)

lemma match_triple:
  assumes "digits la ha a" "digits lb hb b" "digits ly hy y" "\<not> isDigit s1" "\<not> isDigit s2"
    "s1 \<in> set c1" "s2 \<in> set c2"
  shows "matchPieces [Digits la ha, OneOf c1, Digits lb hb, OneOf c2, Digits ly hy]
           (a @ s1 # b @ s2 # y) = Some [a, b, y]"
  using assms by (simp add: digits_def run_then_stop run_to_end Let_def)

lemma no_match_first_length:
  assumes "list_all isDigit a" "\<not> isDigit s1" "\<not> (lo \<le> length a \<and> length a \<le> hi)"
  shows "matchPieces (Digits lo hi # ps) (a @ s1 # r) = None"
  using assms by (auto simp: run_then_stop Let_def)

lemma hd_last_digits:
  assumes "digits la ha a" "1 \<le> la" "digits ly hy y" "1 \<le> ly"
  shows "a @ s1 # b @ s2 # y \<noteq> [] \<and> \<not> isSpace (hd (a @ s1 # b @ s2 # y)) \<and>
         \<not> isSpace (last (a @ s1 # b @ s2 # y))"
proof -
  have a: "a \<noteq> []" and y: "y \<noteq> []" using assms by (auto simp: digits_def)
  have "isDigit (hd a)" using a assms(1) by (cases a) (simp_all add: digits_def)
  moreover have "isDigit (last y)" using y assms(3) by (auto simp: digits_def list_all_iff)
  ultimately show ?thesis using a y by (simp add: digit_not_space)
qed

lemma parse_triple:
  assumes "digits 1 2 a" "digits 1 2 b" "digits 4 4 y"
    and "s1 \<in> set (js ''/-.'')" "s2 \<in> set (js ''/-.'')"
  shows "parseBirthdayInput nativeDate (a @ s1 # b @ s2 # y)
           = Some (newDate (parseInt y) (parseInt b - 1) (parseInt a))"
proof -
  let ?s = "a @ s1 # b @ s2 # y"
  have t: "trim ?s = ?s" "?s \<noteq> []"
    using hd_last_digits [OF assms(1) _ assms(3), of s1 b s2] by (simp_all add: trim_id)
  have d: "\<not> isDigit s1" "\<not> isDigit s2" using assms(4,5) by (simp_all add: sep_not_digit)
  have "matchPieces isoPattern ?s = None"
    unfolding isoPattern_def using assms(1) d
    by (intro no_match_first_length) (auto simp: digits_def)
  then have i: "isoMatch ?s = None" by (simp add: isoMatch_def)
  have "matchPieces euroPattern ?s = Some [a, b, y]"
    unfolding euroPattern_def using assms d by (intro match_triple) simp_all
  then have e: "euroMatch ?s = Some (newDate (parseInt y) (parseInt b - 1) (parseInt a))"
    by (simp add: euroMatch_def)
  show ?thesis using t i e by (simp add: parseBirthdayInput_def Let_def)
qed

lemma parse_iso:
  assumes "digits 4 4 y" "digits 1 2 a" "digits 1 2 b"
  shows "parseBirthdayInput nativeDate (y @ js ''-'' @ a @ js ''-'' @ b)
           = Some (newDate (parseInt y) (parseInt a - 1) (parseInt b))"
proof -
  let ?s = "y @ 45 # a @ 45 # b"
  have s: "y @ js ''-'' @ a @ js ''-'' @ b = ?s" by (simp add: js_def)
  have t: "trim ?s = ?s" "?s \<noteq> []"
    using hd_last_digits [OF assms(1) _ assms(3), of 45 a 45] by (simp_all add: trim_id)
  have d: "\<not> isDigit 45" by (simp add: isDigit_def)
  have "matchPieces isoPattern ?s = Some [y, a, b]"
    unfolding isoPattern_def using assms d by (intro match_triple) (simp_all add: js_def)
  then have i: "isoMatch ?s = Some (newDate (parseInt y) (parseInt a - 1) (parseInt b))"
    by (simp add: isoMatch_def)
  show ?thesis unfolding s using t i by (simp add: parseBirthdayInput_def Let_def)
qed

lemmas parse_eval =
  parseBirthdayInput_def trim_def isSpace_def isDigit_def isLetter_def js_def Let_def
  isoMatch_def isoPattern_def euroMatch_def euroPattern_def usMatch_def usPattern_def
  dayMonthYearMatch_def dayMonthYearPattern_def monthDayYearMatch_def monthDayYearPattern_def
  yearMonthDayMatch_def yearMonthDayPattern_def months_def toLowerCase_def parseInt_def
  noNativeDate_def

lemma matchPieces_mono:
  "list_all2 accepts_more ps qs \<Longrightarrow> matchPieces ps s = Some r \<Longrightarrow> matchPieces qs s = Some r"
proof (induction ps qs arbitrary: s r rule: list_all2_induct)
  case Nil
  then show ?case by simp
next
  case (Cons p ps q qs)
  show ?case
  proof (cases p)
    case (OneOf c)
    then obtain c' where q: "q = OneOf c'" "set c \<subseteq> set c'"
      using Cons.hyps(1) by (cases q) simp_all
    show ?thesis using Cons.prems Cons.IH q(2)
      by (auto simp: OneOf q(1) split: list.splits if_splits)
  next
    case (Digits lo hi)
    then have q: "q = p" using Cons.hyps(1) by simp
    show ?thesis using Cons.prems Cons.IH
      by (auto simp: Digits q Let_def split: if_splits)
  next
    case Letters
    then have q: "q = p" using Cons.hyps(1) by simp
    show ?thesis using Cons.prems Cons.IH
      by (auto simp: Letters q Let_def split: if_splits)
  next
    case Spaces
    then have q: "q = p" using Cons.hyps(1) by simp
    show ?thesis using Cons.prems Cons.IH
      by (auto simp: Spaces q split: if_splits)
  next
    case OptComma
    then have q: "q = p" using Cons.hyps(1) by simp
    show ?thesis using Cons.prems Cons.IH
      by (auto simp: OptComma q split: list.splits if_splits)
  qed
qed

lemma us_within_euro:
  "matchPieces usPattern t = Some cs \<Longrightarrow> matchPieces euroPattern t = Some cs"
  by (rule matchPieces_mono [of usPattern euroPattern])
    (auto simp: usPattern_def euroPattern_def js_def)

lemma matchPieces_three:
  "matchPieces [Digits la ha, OneOf c1, Digits lb hb, OneOf c2, Digits ly hy] t = Some cs
   \<Longrightarrow> \<exists>a b y. cs = [a, b, y]"
  by (auto simp: Let_def split: if_splits list.splits)

lemma usMatch_dead: "euroMatch t = None \<Longrightarrow> usMatch t = None"
proof (cases "matchPieces usPattern t")
  case None
  then show ?thesis by (simp add: usMatch_def)
next
  case (Some cs)
  assume e: "euroMatch t = None"
  from us_within_euro [OF Some] have m: "matchPieces euroPattern t = Some cs" .
  from matchPieces_three [OF m [unfolded euroPattern_def]] obtain a b y where "cs = [a, b, y]"
    by blast
  with m e show ?thesis by (simp add: euroMatch_def)
qed


lemma thirteen_example:
  "parseBirthdayInput noNativeDate (js ''13/13/2020'') = Some (newDate 2020 12 13)"
  by (simp add: parse_eval)

lemma thirteen_date:
  "newDate 2020 12 13 = newDate 2021 0 13"
  "getFullYear (newDate 2020 12 13) = 2021"
  "getMonth (newDate 2020 12 13) = 0"
  "getDate (newDate 2020 12 13) = 13"
  by code_simp+

text \<open>
  C3, as the code has it. No block of the parser checks the calendar. An input of the ISO form
  \<open>YYYY-M-D\<close> and an input \<open>D/M/YYYY\<close> (separators \<open>/\<close>, \<open>-\<close> or \<open>.\<close>; the case of a first
  number up to 12 with a second number above 12 left aside) always give a date, never
  \<open>null\<close>: the date \<open>new Date(year, month - 1, day)\<close>, in which a month or a day out of range
  is carried into the following months and years.
\<close>

theorem parseBirthdayInput_numeric_never_null:
  assumes "digits 1 2 a" and "digits 1 2 b" and "digits 4 4 y"
  shows "parseBirthdayInput nativeDate (y @ js ''-'' @ a @ js ''-'' @ b)
           = Some (newDate (parseInt y) (parseInt a - 1) (parseInt b)) \<and>
         (s1 \<in> set (js ''/-.'') \<and> s2 \<in> set (js ''/-.'') \<and>
          (12 < parseInt a \<or> parseInt b \<le> 12) \<longrightarrow>
            parseBirthdayInput nativeDate (a @ s1 # b @ s2 # y)
              = Some (newDate (parseInt y) (parseInt b - 1) (parseInt a)))"
  using parse_iso [OF assms(3,1,2)] parse_triple [OF assms] by simp

theorem parseBirthdayInput_numeric_never_null_witness:
  "digits 1 2 (js ''13'') \<and> digits 4 4 (js ''2020'') \<and> 47 \<in> set (js ''/-.'') \<and>
   12 < parseInt (js ''13'') \<and>
   parseBirthdayInput noNativeDate (js ''2020'' @ js ''-'' @ js ''13'' @ js ''-'' @ js ''13'')
     = Some (newDate (parseInt (js ''2020'')) (parseInt (js ''13'') - 1) (parseInt (js ''13''))) \<and>
   parseBirthdayInput noNativeDate (js ''13'' @ 47 # js ''13'' @ 47 # js ''2020'')
     = Some (newDate (parseInt (js ''2020'')) (parseInt (js ''13'') - 1) (parseInt (js ''13'')))"
proof -
  have a: "digits 1 2 (js ''13'')" and y: "digits 4 4 (js ''2020'')"
    by (simp_all add: digits_def js_def isDigit_def)
  have s: "47 \<in> set (js ''/-.'')" by (simp add: js_def)
  have n: "12 < parseInt (js ''13'')" by (simp add: parseInt_def js_def)
  from parseBirthdayInput_numeric_never_null [OF a a y, of noNativeDate 47 47] a y s n
  show ?thesis by blast
qed

text \<open>
  C3, as the claim states it, fails for \<open>13/13/2020\<close>: the parser returns the 13th of
  January 2021 and not \<open>null\<close>.
\<close>

theorem parseBirthdayInput_month_13_counterexample:
  "parseBirthdayInput noNativeDate (js ''13/13/2020'') = Some (newDate 2021 0 13) \<and>
   parseBirthdayInput noNativeDate (js ''13/13/2020'') \<noteq> None \<and>
   getFullYear (newDate 2021 0 13) = 2021 \<and> getMonth (newDate 2021 0 13) = 0 \<and>
   getDate (newDate 2021 0 13) = 13"
  using thirteen_example thirteen_date by simp

text \<open>
  C4. The pattern of the second block accepts every string that the pattern of the third
  block accepts, so the third block, which would read a first number up to 12 followed by a
  second number above 12 as month and day, is never reached. \<open>04/15/1988\<close> is read as day 4
  of month 15 of 1988, the 4th of March 1989, and not as the 15th of April 1988.
\<close>

theorem parseBirthdayInput_us_date_as_day_month:
  "parseBirthdayInput nativeDate (js ''04/15/1988'') = Some (newDate 1989 2 4) \<and>
   newDate 1989 2 4 \<noteq> newDate 1988 3 15 \<and>
   usMatch (js ''04/15/1988'') = Some (newDate 1988 3 15)"
proof -
  have "parseBirthdayInput nativeDate (js ''04/15/1988'') = Some (newDate 1988 14 4)"
    by (simp add: parse_eval)
  moreover have "newDate 1988 14 4 = newDate 1989 2 4" "newDate 1989 2 4 \<noteq> newDate 1988 3 15"
    by code_simp+
  moreover have "usMatch (js ''04/15/1988'') = Some (newDate 1988 3 15)"
    by (simp add: parse_eval)
  ultimately show ?thesis by simp
qed

section \<open>Properties of the completion listener\<close>

lemmas task_eval = setupTaskCompletionListener_def completedBirthdayTask_def isBirthdayTask_def
  matchNameAt_def js_def Let_def List.map_filter_def

lemma straight_apostrophe_example:
  "setupTaskCompletionListener [js ''DONE [[Alice]]'' @ [39] @ js ''s Birthday!''] = [js ''Alice'']"
  by (simp add: task_eval)

text \<open>
  With the straight apostrophe the listener calls the handler for every content that starts
  with \<open>DONE\<close> and holds a bracketed name followed by the apostrophe and \<open>s Birthday\<close>.
\<close>

lemma includes_append: "includes' (a @ p @ b) p"
proof (induction a)
  case Nil
  have "take (length p) (p @ b) = p" by simp
  then show ?case by (cases "p @ b") auto
next
  case (Cons c a)
  then show ?case by simp
qed

lemma matchNameAt_here:
  assumes "nm \<noteq> []" "93 \<notin> set nm"
  shows "matchNameAt (js ''[['' @ nm @ js '']]'' @ [39] @ js ''s Birthday'' @ post) = Some nm"
proof -
  have p: "list_all (\<lambda>c. c \<noteq> 93) nm" using assms(2) by (auto simp: list_all_iff)
  have s: "js ''[['' @ nm @ js '']]'' @ [39] @ js ''s Birthday'' @ post
           = 91 # 91 # nm @ 93 # (93 # 39 # js ''s Birthday'' @ post)"
    by (simp add: js_def)
  show ?thesis
    unfolding s using assms(1) run_then_stop [OF p, of 93]
    by (simp add: matchNameAt_def Let_def) (simp add: js_def)
qed

lemma matchNameAt_nonempty: "matchNameAt s = Some nm \<Longrightarrow> nm \<noteq> []"
  by (auto simp: matchNameAt_def Let_def split: if_splits)

lemma extract_nonempty: "extractBirthdayPersonName s = Some nm \<Longrightarrow> nm \<noteq> []"
  by (induction s) (auto split: option.splits dest: matchNameAt_nonempty)

lemma extract_finds:
  "matchNameAt s = Some nm \<Longrightarrow> \<exists>found. extractBirthdayPersonName (a @ s) = Some found"
proof (induction a)
  case Nil
  then show ?case by (cases s) (auto simp: matchNameAt_def js_def)
next
  case (Cons c a)
  then show ?case by (auto split: option.splits)
qed

lemma straight_apostrophe_detected:
  assumes "nm \<noteq> []" "93 \<notin> set nm"
  shows "\<exists>found. completedBirthdayTask
           (js ''DONE'' @ pre @ js ''[['' @ nm @ js '']]'' @ [39] @ js ''s Birthday'' @ post)
         = Some found"
proof -
  let ?tail = "js ''[['' @ nm @ js '']]'' @ [39] @ js ''s Birthday'' @ post"
  let ?c = "js ''DONE'' @ pre @ ?tail"
  have d: "startsWith ?c (js ''DONE'')" by simp
  have "includes' ((js ''DONE'' @ pre @ js ''[['' @ nm @ js '']]'') @ (39 # js ''s Birthday'') @ post)
          (39 # js ''s Birthday'')"
    by (rule includes_append)
  then have a: "includes' ?c (39 # js ''s Birthday'')" by simp
  have "includes' ((js ''DONE'' @ pre) @ js ''[['' @ (nm @ js '']]'' @ [39] @ js ''s Birthday'' @ post))
          (js ''[['')"
    by (rule includes_append)
  then have b: "includes' ?c (js ''[['')" by simp
  from extract_finds [OF matchNameAt_here [OF assms], of "js ''DONE'' @ pre" post]
  obtain found where f: "extractBirthdayPersonName ?c = Some found" by auto
  from extract_nonempty [OF f] have "found \<noteq> []" .
  then show ?thesis using a b d f
    by (simp add: completedBirthdayTask_def isBirthdayTask_def del: startsWith.simps)
qed

text \<open>
  C5. A completed task written with the curly apostrophe U+2019 does not trigger the
  transition: \<open>isBirthdayTask\<close> looks for the straight apostrophe only, and so does the
  character class of \<open>extractBirthdayPersonName\<close>.
\<close>

theorem curly_apostrophe_not_detected:
  "setupTaskCompletionListener [js ''DONE [[Alice]]'' @ [8217] @ js ''s Birthday!''] = [] \<and>
   isBirthdayTask (js ''DONE [[Alice]]'' @ [8217] @ js ''s Birthday!'') = False \<and>
   extractBirthdayPersonName (js ''DONE [[Alice]]'' @ [8217] @ js ''s Birthday!'') = None"
  by (simp add: task_eval)

section \<open>Properties of createPerson\<close>

lemma createPerson_name_required:
  assumes "name' data = None \<or> (\<exists>n. name' data = Some n \<and> trim n = [])"
  shows "createPerson h nativeDate now data tr =
           (\<lparr>success = False, error = Some (js ''Name is required'')\<rparr>, tr)"
proof -
  have "\<not> truthy (name' data) \<or> trim (str (name' data)) = []"
    using assms by (auto simp: truthy_def str_def)
  then show ?thesis
    by (simp add: createPerson_def createPersonTry_def returnIO_def)
qed

lemma createPerson_duplicate:
  assumes "name' data = Some n" "trim n \<noteq> []" "h tr (GetPage (trim n)) = Returns (Some u)"
  shows "createPerson h nativeDate now data tr =
           (\<lparr>success = False,
              error = Some (js ''A page named '' @ [34] @ trim n @ [34] @ js '' already exists'')\<rparr>,
            tr @ [GetPage (trim n)])"
proof -
  have n: "n \<noteq> []" using assms(2) by (auto simp: trim_def)
  have "truthy (name' data)" "str (name' data) = n"
    using assms(1) n by (simp_all add: truthy_def str_def)
  then show ?thesis
    using assms(2,3)
    by (simp add: createPerson_def createPersonTry_def returnIO_def bindIO_def perform_def Let_def)
qed

text \<open>
  C9. \<open>createPerson\<close> returns a result in every case (the exceptions of the host are caught).
  With a missing name, or one that is empty after trimming, the result is the failure
  \<open>Name is required\<close> and no call is made to the host. With a name for which \<open>getPage\<close>
  returns a page, the result is the failure \<open>A page named ... already exists\<close> and the only
  call made is that \<open>getPage\<close>: nothing is created and no property is written.
\<close>

theorem createPerson_validation_failure:
  "(name' data = None \<or> (\<exists>n. name' data = Some n \<and> trim n = []) \<longrightarrow>
      createPerson h nativeDate now data tr =
        (\<lparr>success = False, error = Some (js ''Name is required'')\<rparr>, tr)) \<and>
   (name' data = Some n \<and> trim n \<noteq> [] \<and> h tr (GetPage (trim n)) = Returns (Some u) \<longrightarrow>
      createPerson h nativeDate now data tr =
        (\<lparr>success = False,
           error = Some (js ''A page named '' @ [34] @ trim n @ [34] @ js '' already exists'')\<rparr>,
         tr @ [GetPage (trim n)]))"
  using createPerson_name_required [of data h nativeDate now tr]
    createPerson_duplicate [of data n h tr u nativeDate now]
  by blast


theorem createPerson_validation_failure_witness:
  "name' blankData = Some (js ''   '') \<and> trim (js ''   '') = [] \<and>
   createPerson aliceExists isoNativeDate june1 blankData [] =
     (\<lparr>success = False, error = Some (js ''Name is required'')\<rparr>, []) \<and>
   name' aliceData = Some (js '' Alice '') \<and> trim (js '' Alice '') = js ''Alice'' \<and>
   aliceExists [] (GetPage (js ''Alice'')) = Returns (Some (js ''u1'')) \<and>
   createPerson aliceExists isoNativeDate june1 aliceData [] =
     (\<lparr>success = False,
        error = Some (js ''A page named '' @ [34] @ js ''Alice'' @ [34] @ js '' already exists'')\<rparr>,
      [] @ [GetPage (js ''Alice'')])"
proof -
  have b: "name' blankData = Some (js ''   '')" "trim (js ''   '') = []"
    by (simp_all add: blankData_def trim_def js_def isSpace_def)
  have a: "name' aliceData = Some (js '' Alice '')" "trim (js '' Alice '') = js ''Alice''"
    by (simp_all add: aliceData_def trim_def js_def isSpace_def)
  have n: "trim (js '' Alice '') \<noteq> []" by (simp add: a(2)) (simp add: js_def)
  have g: "aliceExists [] (GetPage (trim (js '' Alice ''))) = Returns (Some (js ''u1''))"
    by (simp add: a(2) aliceExists_def)
  from createPerson_validation_failure
         [where data = blankData and h = aliceExists and tr = "[]" and nativeDate = isoNativeDate
            and now = june1 and n = "js '' Alice ''" and u = "js ''u1''"] b
  have 1: "createPerson aliceExists isoNativeDate june1 blankData [] =
     (\<lparr>success = False, error = Some (js ''Name is required'')\<rparr>, [])"
    by blast
  from createPerson_validation_failure
         [where data = aliceData and h = aliceExists and tr = "[]" and nativeDate = isoNativeDate
            and now = june1 and n = "js '' Alice ''" and u = "js ''u1''"] a(1) n g
  have 2: "createPerson aliceExists isoNativeDate june1 aliceData [] =
     (\<lparr>success = False,
        error = Some (js ''A page named '' @ [34] @ trim (js '' Alice '') @ [34]
                      @ js '' already exists'')\<rparr>,
      [] @ [GetPage (trim (js '' Alice ''))])"
    by blast
  from b a 1 2 g show ?thesis by (simp add: a(2))
qed


text \<open>
  A creation that succeeds: the page, its tag, the properties, and the task of the next
  birthday on its journal page.
\<close>

lemma bob_fields:
  "isoNativeDate (js ''1985-06-02'') = Some (newDate 1985 5 2)"
  by (simp add: isoNativeDate_def parse_eval)

lemma fields_bob_next:
  "getFullYear (newDate 2024 5 2) = 2024" "getMonth (newDate 2024 5 2) = 5"
  "getDate (newDate 2024 5 2) = 2"
  by code_simp+

lemma format_bob: "formatDateForLogseq (newDate 2024 5 2) = js ''2024-06-02''"
  by (simp add: formatDateForLogseq_def fields_bob_next numberToString_def padStart2_def
      natDigits.simps js_def)

lemma createPerson_success_example:
  "createPerson aliceExists isoNativeDate june1 bobData [] =
     (\<lparr>success = True, error = None\<rparr>,
      [GetPage (js ''Bob''), CreatePage (js ''Bob'') False,
       AddBlockTag (js ''page:Bob'') PEOPLE_TAG_UUID,
       UpsertBlockProperty (js ''page:Bob'') (js ''birthday-GB6GsLcK'') (StrVal (js ''1985-06-02'')),
       UpsertBlockProperty (js ''page:Bob'') (js ''relationship-F2JPblxy'') (StrVal (js ''friend'')),
       UpsertBlockProperty (js ''page:Bob'') (js ''contact-frequency-rE_86ouV'') (NumVal 14),
       GetPage (js ''2024-06-02''), CreatePage (js ''2024-06-02'') True,
       AppendBlockInPage (js ''page:2024-06-02'') (js ''[[Bob]]'' @ [39] @ js ''s Birthday!''),
       AddBlockTag (js ''block'') TASK_TAG_UUID])"
proof -
  have t: "trim (js ''Bob'') = js ''Bob''" by (simp add: trim_def js_def isSpace_def)
  show ?thesis
    by (simp add: createPerson_def createPersonTry_def bobData_def truthy_def str_def
        t [unfolded js_def, simplified] bob_fields [unfolded js_def, simplified]
        format_bob [unfolded js_def, simplified]
        createBirthdayReminderTask_def rollover_example whenIO_def
        PEOPLE_PROPERTIES_def catchIO_def bindIO_def perform_def returnIO_def aliceExists_def
        Let_def js_def)
qed


end
